theory Spec2Isabelle
  imports
    Complex_Main
    "HOL-Library.Char_ord"
    "HOL-Library.List_Lexorder"
    "HOL-Library.Sublist"
    "HOL-Library.AList"
begin

section \<open>Python values\<close>

text \<open>
  The exceptions the two scripts can meet inside their loops. \<open>KeyError\<close> comes from a
  dictionary subscript, \<open>ValueError\<close> and \<open>TypeError\<close> from \<^verbatim>\<open>float()\<close> (and
  \<open>ValueError\<close> from \<^verbatim>\<open>datetime.strptime\<close>), \<open>ZeroDivisionError\<close> from \<^verbatim>\<open>/\<close>.
\<close>

datatype exn = KeyError | ValueError | TypeError | ZeroDivisionError

text \<open>
  A Python float: a finite value, one of the two infinities, or not-a-number
  (\<^verbatim>\<open>float('inf')\<close>, \<^verbatim>\<open>float('nan')\<close> are accepted by \<^verbatim>\<open>float()\<close>). Finite values
  are exact reals: the rounding of binary floating point, overflow and the sign of zero
  are not part of the model.
\<close>

datatype pyfloat = Finite real | PosInf | NegInf | NaN

fun fsub :: "pyfloat \<Rightarrow> pyfloat \<Rightarrow> pyfloat" where
  "fsub (Finite a) (Finite b) = Finite (a - b)"
| "fsub NaN _ = NaN"
| "fsub _ NaN = NaN"
| "fsub PosInf PosInf = NaN"
| "fsub NegInf NegInf = NaN"
| "fsub PosInf _ = PosInf"
| "fsub NegInf _ = NegInf"
| "fsub _ PosInf = NegInf"
| "fsub _ NegInf = PosInf"

fun fmul :: "pyfloat \<Rightarrow> pyfloat \<Rightarrow> pyfloat" where
  "fmul (Finite a) (Finite b) = Finite (a * b)"
| "fmul NaN _ = NaN"
| "fmul _ NaN = NaN"
| "fmul (Finite a) PosInf = (if a = 0 then NaN else if 0 < a then PosInf else NegInf)"
| "fmul (Finite a) NegInf = (if a = 0 then NaN else if 0 < a then NegInf else PosInf)"
| "fmul PosInf (Finite b) = (if b = 0 then NaN else if 0 < b then PosInf else NegInf)"
| "fmul NegInf (Finite b) = (if b = 0 then NaN else if 0 < b then NegInf else PosInf)"
| "fmul PosInf PosInf = PosInf"
| "fmul PosInf NegInf = NegInf"
| "fmul NegInf PosInf = NegInf"
| "fmul NegInf NegInf = PosInf"

text \<open>The quotient for a divisor that is not zero (Python raises on zero before dividing).\<close>

fun fdiv :: "pyfloat \<Rightarrow> pyfloat \<Rightarrow> pyfloat" where
  "fdiv (Finite a) (Finite b) = Finite (a / b)"
| "fdiv NaN _ = NaN"
| "fdiv _ NaN = NaN"
| "fdiv (Finite a) PosInf = Finite 0"
| "fdiv (Finite a) NegInf = Finite 0"
| "fdiv PosInf (Finite b) = (if 0 < b then PosInf else NegInf)"
| "fdiv NegInf (Finite b) = (if 0 < b then NegInf else PosInf)"
| "fdiv PosInf PosInf = NaN"
| "fdiv PosInf NegInf = NaN"
| "fdiv NegInf PosInf = NaN"
| "fdiv NegInf NegInf = NaN"

fun fabs :: "pyfloat \<Rightarrow> pyfloat" where
  "fabs (Finite a) = Finite \<bar>a\<bar>"
| "fabs PosInf = PosInf"
| "fabs NegInf = PosInf"
| "fabs NaN = NaN"

text \<open>Comparisons: every comparison with \<open>NaN\<close> is false, except \<^verbatim>\<open>!=\<close>.\<close>

fun feq :: "pyfloat \<Rightarrow> pyfloat \<Rightarrow> bool" where
  "feq (Finite a) (Finite b) = (a = b)"
| "feq PosInf PosInf = True"
| "feq NegInf NegInf = True"
| "feq _ _ = False"

fun flt :: "pyfloat \<Rightarrow> pyfloat \<Rightarrow> bool" where
  "flt (Finite a) (Finite b) = (a < b)"
| "flt NaN _ = False"
| "flt _ NaN = False"
| "flt NegInf NegInf = False"
| "flt NegInf _ = True"
| "flt PosInf _ = False"
| "flt (Finite a) PosInf = True"
| "flt (Finite a) NegInf = False"

definition fne :: "pyfloat \<Rightarrow> pyfloat \<Rightarrow> bool" where
  "fne a b = (\<not> feq a b)"

definition fgt :: "pyfloat \<Rightarrow> pyfloat \<Rightarrow> bool" where
  "fgt a b = flt b a"

definition fle :: "pyfloat \<Rightarrow> pyfloat \<Rightarrow> bool" where
  "fle a b = (flt a b \<or> feq a b)"

text \<open>\<^verbatim>\<open>a / b\<close> on floats: \<open>ZeroDivisionError\<close> when \<open>b == 0\<close>.\<close>

definition truediv :: "pyfloat \<Rightarrow> pyfloat \<Rightarrow> exn + pyfloat" where
  "truediv a b = (if feq b (Finite 0) then Inl ZeroDivisionError else Inr (fdiv a b))"

text \<open>
  A value read from the CSV or JSON input, as the scripts observe it: through
  \<^verbatim>\<open>float(v)\<close> and through \<^verbatim>\<open>v == '0.00'\<close>.
  \<^item> \<open>Numeric s x\<close>: the text \<open>s\<close>, which \<^verbatim>\<open>float()\<close> converts to \<open>x\<close>;
  \<^item> \<open>Text s\<close>: a text that \<^verbatim>\<open>float()\<close> rejects with \<open>ValueError\<close>;
  \<^item> \<open>NoneVal\<close>: \<^verbatim>\<open>None\<close> (the fill value of \<^verbatim>\<open>csv.DictReader\<close> for a short row,
    JSON \<^verbatim>\<open>null\<close>), on which \<^verbatim>\<open>float()\<close> raises \<open>TypeError\<close>.
\<close>

datatype pyval = Numeric string pyfloat | Text string | NoneVal

fun float :: "pyval \<Rightarrow> exn + pyfloat" where
  "float (Numeric s x) = Inr x"
| "float (Text s) = Inl ValueError"
| "float NoneVal = Inl TypeError"

text \<open>A dictionary with text keys, in insertion order; \<open>d[k]\<close> raises \<open>KeyError\<close>.\<close>

type_synonym 'v dict = "(string \<times> 'v) list"

definition getitem :: "'v dict \<Rightarrow> string \<Rightarrow> exn + 'v" where
  "getitem d k = (case map_of d k of None \<Rightarrow> Inl KeyError | Some v \<Rightarrow> Inr v)"

section \<open>05\_sanitize\_csv.py\<close>

definition OUTLIER_THRESHOLD_PERCENTAGE :: pyfloat where
  "OUTLIER_THRESHOLD_PERCENTAGE = Finite 50"

definition is_numeric_column :: "string \<Rightarrow> bool" where
  "is_numeric_column column_name = (column_name \<noteq> ''fecha'')"

text \<open>
  The division is guarded by the test \<open>previous == 0\<close>, which is the test on which
  \<^verbatim>\<open>/\<close> raises, so the quotient is \<^const>\<open>fdiv\<close>.
\<close>

definition calculate_percentage_difference :: "pyfloat \<Rightarrow> pyfloat \<Rightarrow> pyfloat" where
  "calculate_percentage_difference current previous =
     (if feq previous (Finite 0)
      then (if fne current (Finite 0) then PosInf else Finite 0)
      else fmul (fabs (fdiv (fsub current previous) previous)) (Finite 100))"

type_synonym row = "pyval dict"

text \<open>
  The lookahead loop \<^verbatim>\<open>for j in range(1, 3)\<close> of \<^verbatim>\<open>sanitize_csv\<close>, over the
  offsets still to visit; the result is the final \<open>is_sustained_change\<close>. The inner
  \<^verbatim>\<open>try\<close> catches \<open>ValueError\<close> and \<open>TypeError\<close> and goes on with the next
  offset; \<^verbatim>\<open>break\<close> ends the loop.
\<close>

fun is_sustained_change :: "row list \<Rightarrow> nat \<Rightarrow> string \<Rightarrow> pyfloat \<Rightarrow> pyfloat \<Rightarrow> nat list \<Rightarrow> exn + bool" where
  "is_sustained_change all_rows i col current_value previous_value [] = Inr False"
| "is_sustained_change all_rows i col current_value previous_value (j # js) =
     (if i + j < length all_rows then
        (case getitem (all_rows ! (i + j)) col of
           Inl e \<Rightarrow> Inl e
         | Inr v \<Rightarrow>
            (case float v of
               Inl e \<Rightarrow> is_sustained_change all_rows i col current_value previous_value js
             | Inr next_value \<Rightarrow>
                 if fle (fabs (fsub current_value next_value)) (fabs (fsub previous_value next_value))
                 then Inr True
                 else is_sustained_change all_rows i col current_value previous_value js))
      else is_sustained_change all_rows i col current_value previous_value js)"

text \<open>
  The body of the outer \<^verbatim>\<open>try\<close> for one column: \<open>Inr True\<close> when the column marks the
  row as an outlier (\<^verbatim>\<open>is_outlier = True\<close>), \<open>Inr False\<close> when it does not, \<open>Inl e\<close>
  when \<open>e\<close> is raised inside the block.
\<close>

definition column_try :: "row list \<Rightarrow> nat \<Rightarrow> row \<Rightarrow> row \<Rightarrow> string \<Rightarrow> exn + bool" where
  "column_try all_rows i previous_row row col =
     (case getitem row col of
        Inl e \<Rightarrow> Inl e
      | Inr c \<Rightarrow>
     (case float c of
        Inl e \<Rightarrow> Inl e
      | Inr current_value \<Rightarrow>
     (case getitem previous_row col of
        Inl e \<Rightarrow> Inl e
      | Inr p \<Rightarrow>
     (case float p of
        Inl e \<Rightarrow> Inl e
      | Inr previous_value \<Rightarrow>
         if fgt (calculate_percentage_difference current_value previous_value)
              OUTLIER_THRESHOLD_PERCENTAGE
         then (case is_sustained_change all_rows i col current_value previous_value [1, 2] of
                 Inl e \<Rightarrow> Inl e
               | Inr sustained \<Rightarrow> Inr (\<not> sustained))
         else Inr False))))"

text \<open>
  The loop \<^verbatim>\<open>for col in numeric_columns\<close> with the flag \<open>is_outlier\<close>:
  \<^verbatim>\<open>except (ValueError, TypeError): continue\<close> skips the column, any other exception
  leaves the function.
\<close>

fun check_columns :: "row list \<Rightarrow> nat \<Rightarrow> row \<Rightarrow> row \<Rightarrow> string list \<Rightarrow> bool \<Rightarrow> exn + bool" where
  "check_columns all_rows i previous_row row [] is_outlier = Inr is_outlier"
| "check_columns all_rows i previous_row row (col # cols) is_outlier =
     (case column_try all_rows i previous_row row col of
        Inr b \<Rightarrow> check_columns all_rows i previous_row row cols (is_outlier \<or> b)
      | Inl e \<Rightarrow>
          if e = ValueError \<or> e = TypeError
          then check_columns all_rows i previous_row row cols is_outlier
          else Inl e)"

text \<open>
  What \<^verbatim>\<open>sanitize_csv\<close> produces: the header and the rows handed to the
  \<^verbatim>\<open>csv.DictWriter\<close>, and one entry per printed warning, the row number
  \<open>row_num = i + 2\<close> and the row's \<open>fecha\<close> (the detail lines of a warning are formatted
  floats and are left out). Reading and writing the files is outside the model: the
  input is the header and the rows \<^verbatim>\<open>csv.DictReader\<close> returned for a file that has a
  header line, each row a dictionary from column names to values.
\<close>

record sanitized =
  fieldnames :: "string list"
  rows_to_keep :: "row list"
  warnings :: "(nat \<times> pyval) list"

text \<open>The main loop \<^verbatim>\<open>for i, row in enumerate(all_rows)\<close>, over the pairs still to visit.\<close>

fun sanitize_rows :: "string list \<Rightarrow> row list \<Rightarrow> (nat \<times> row) list \<Rightarrow> sanitized \<Rightarrow> exn + sanitized" where
  "sanitize_rows numeric_columns all_rows [] out = Inr out"
| "sanitize_rows numeric_columns all_rows ((i, row) # rest) out =
     (if i = 0
      then sanitize_rows numeric_columns all_rows rest
             (out\<lparr>rows_to_keep := rows_to_keep out @ [row]\<rparr>)
      else
        (case check_columns all_rows i (all_rows ! (i - 1)) row numeric_columns False of
           Inl e \<Rightarrow> Inl e
         | Inr is_outlier \<Rightarrow>
             if is_outlier
             then (case getitem row ''fecha'' of
                     Inl e \<Rightarrow> Inl e
                   | Inr d \<Rightarrow> sanitize_rows numeric_columns all_rows rest
                                (out\<lparr>warnings := warnings out @ [(i + 2, d)]\<rparr>))
             else sanitize_rows numeric_columns all_rows rest
                    (out\<lparr>rows_to_keep := rows_to_keep out @ [row]\<rparr>)))"

definition sanitize_csv :: "string list \<Rightarrow> row list \<Rightarrow> exn + sanitized" where
  "sanitize_csv header all_rows =
     sanitize_rows (filter is_numeric_column header) all_rows (List.enumerate 0 all_rows)
       \<lparr>fieldnames = header, rows_to_keep = [], warnings = []\<rparr>"

section \<open>04\_build\_prices\_csv.py\<close>

definition START_DATE :: string where
  "START_DATE = ''2018-07-01''"

text \<open>\<^verbatim>\<open>d.get(k, default)\<close>, and \<^verbatim>\<open>v == s\<close> for a text \<open>s\<close>.\<close>

definition dict_get :: "'v dict \<Rightarrow> string \<Rightarrow> 'v \<Rightarrow> 'v" where
  "dict_get d k dflt = (case map_of d k of None \<Rightarrow> dflt | Some v \<Rightarrow> v)"

fun eq_str :: "pyval \<Rightarrow> string \<Rightarrow> bool" where
  "eq_str (Numeric s x) t = (s = t)"
| "eq_str (Text s) t = (s = t)"
| "eq_str NoneVal t = False"

text \<open>
  The inner loop \<^verbatim>\<open>for cereal in cereals\<close> of \<^verbatim>\<open>extract_cereal_prices_by_date\<close>,
  with the dictionary \<open>date_prices\<close> built so far. The default \<^verbatim>\<open>'0.00'\<close> is the text
  that \<^verbatim>\<open>float()\<close> converts to zero.
\<close>

fun cereal_loop :: "pyval dict dict \<Rightarrow> string list \<Rightarrow> pyfloat dict \<Rightarrow> pyfloat dict" where
  "cereal_loop date_data [] date_prices = date_prices"
| "cereal_loop date_data (cereal # cereals) date_prices =
     (case map_of date_data cereal of
        None \<Rightarrow> cereal_loop date_data cereals date_prices
      | Some cereal_data \<Rightarrow>
          (let price_str = dict_get cereal_data ''precio'' (Numeric ''0.00'' (Finite 0));
               price_str = (if eq_str price_str ''0.00''
                            then dict_get cereal_data ''estimativo'' (Numeric ''0.00'' (Finite 0))
                            else price_str)
           in case float price_str of
                Inl e \<Rightarrow> cereal_loop date_data cereals date_prices
              | Inr price_ars \<Rightarrow>
                  if fgt price_ars (Finite 0)
                  then cereal_loop date_data cereals (AList.update cereal price_ars date_prices)
                  else cereal_loop date_data cereals date_prices))"

text \<open>The outer loop \<^verbatim>\<open>for date_str, date_data in pizarra_data.items()\<close>.\<close>

fun pizarra_loop :: "pyval dict dict dict \<Rightarrow> string list \<Rightarrow> pyfloat dict dict \<Rightarrow> pyfloat dict dict" where
  "pizarra_loop [] cereals prices_by_date = prices_by_date"
| "pizarra_loop ((date_str, date_data) # items) cereals prices_by_date =
     (let date_prices = cereal_loop date_data cereals []
      in if date_prices \<noteq> []
         then pizarra_loop items cereals (AList.update date_str date_prices prices_by_date)
         else pizarra_loop items cereals prices_by_date)"

definition extract_cereal_prices_by_date :: "pyval dict dict dict dict \<Rightarrow> string list \<Rightarrow> pyfloat dict dict" where
  "extract_cereal_prices_by_date prices_data cereals =
     pizarra_loop (dict_get prices_data ''pizarra'' []) cereals []"

text \<open>
  \<^verbatim>\<open>datetime.strptime(s, '%Y-%m-%d')\<close> is library code: it is the parameter \<open>strptime\<close>,
  which gives a point of a linear order or raises \<open>ValueError\<close>. The loop
  \<^verbatim>\<open>for exchange_date_str in reversed(sorted_dates)\<close> of \<^verbatim>\<open>find_exchange_rate\<close>:
\<close>

fun closest_previous :: "(string \<Rightarrow> exn + 'd::linorder) \<Rightarrow> 'd \<Rightarrow> pyfloat dict \<Rightarrow> string list \<Rightarrow> exn + pyfloat option" where
  "closest_previous strptime target_date exchange_rates [] = Inr None"
| "closest_previous strptime target_date exchange_rates (exchange_date_str # dates) =
     (case strptime exchange_date_str of
        Inl e \<Rightarrow> Inl e
      | Inr exchange_date \<Rightarrow>
          if exchange_date \<le> target_date
          then (case getitem exchange_rates exchange_date_str of
                  Inl e \<Rightarrow> Inl e
                | Inr rate \<Rightarrow> Inr (Some rate))
          else closest_previous strptime target_date exchange_rates dates)"

definition find_exchange_rate :: "(string \<Rightarrow> exn + 'd::linorder) \<Rightarrow> string \<Rightarrow> pyfloat dict \<Rightarrow> exn + pyfloat option" where
  "find_exchange_rate strptime date_str exchange_rates =
     (case map_of exchange_rates date_str of
        Some rate \<Rightarrow> Inr (Some rate)
      | None \<Rightarrow>
          (case strptime date_str of
             Inl e \<Rightarrow> Inl e
           | Inr target_date \<Rightarrow>
               closest_previous strptime target_date exchange_rates
                 (rev (sort (map fst exchange_rates)))))"

text \<open>
  \<^verbatim>\<open>round(x, ndigits)\<close> on a float: the nearest multiple of \<open>10 ^ -ndigits\<close>, a tie going
  to the even one; an infinity or a \<open>NaN\<close> is returned as it is.
\<close>

definition round_half_even :: "real \<Rightarrow> int" where
  "round_half_even x =
     (let f = \<lfloor>x\<rfloor>; d = x - of_int f
      in if d < 1 / 2 then f else if 1 / 2 < d then f + 1 else if even f then f else f + 1)"

fun py_round :: "pyfloat \<Rightarrow> nat \<Rightarrow> pyfloat" where
  "py_round (Finite x) ndigits = Finite (of_int (round_half_even (x * 10 ^ ndigits)) / 10 ^ ndigits)"
| "py_round x ndigits = x"

text \<open>One row handed to \<^verbatim>\<open>writer.writerow\<close>, in the order of the header.\<close>

record price_row =
  fecha :: string
  maiz_ars :: pyfloat
  trigo_ars :: pyfloat
  soja_ars :: pyfloat
  tipo_cambio_usd :: pyfloat
  maiz_usd :: pyfloat
  trigo_usd :: pyfloat
  soja_usd :: pyfloat

text \<open>
  The loop \<^verbatim>\<open>for date_str in sorted_dates\<close> of \<^verbatim>\<open>build_prices_csv\<close>, with the rows
  written so far. The default of \<^verbatim>\<open>date_prices.get\<close> is the integer 0.
\<close>

fun write_rows :: "(string \<Rightarrow> exn + 'd::linorder) \<Rightarrow> pyfloat dict \<Rightarrow> pyfloat dict dict \<Rightarrow> string list \<Rightarrow> price_row list \<Rightarrow> exn + price_row list" where
  "write_rows strptime exchange_rates prices_by_date [] written = Inr written"
| "write_rows strptime exchange_rates prices_by_date (date_str # dates) written =
     (if date_str < START_DATE
      then write_rows strptime exchange_rates prices_by_date dates written
      else
        (case find_exchange_rate strptime date_str exchange_rates of
           Inl e \<Rightarrow> Inl e
         | Inr None \<Rightarrow> write_rows strptime exchange_rates prices_by_date dates written
         | Inr (Some exchange_rate) \<Rightarrow>
            (case getitem prices_by_date date_str of
               Inl e \<Rightarrow> Inl e
             | Inr date_prices \<Rightarrow>
                (let maiz = dict_get date_prices ''maiz'' (Finite 0);
                     trigo = dict_get date_prices ''trigo'' (Finite 0);
                     soja = dict_get date_prices ''soja'' (Finite 0)
                 in if feq maiz (Finite 0) \<or> feq trigo (Finite 0) \<or> feq soja (Finite 0)
                    then write_rows strptime exchange_rates prices_by_date dates written
                    else
                      (case truediv maiz exchange_rate of
                         Inl e \<Rightarrow> Inl e
                       | Inr qm \<Rightarrow>
                      (case truediv trigo exchange_rate of
                         Inl e \<Rightarrow> Inl e
                       | Inr qt \<Rightarrow>
                      (case truediv soja exchange_rate of
                         Inl e \<Rightarrow> Inl e
                       | Inr qs \<Rightarrow>
                          write_rows strptime exchange_rates prices_by_date dates
                            (written @
                              [\<lparr>fecha = date_str, maiz_ars = maiz, trigo_ars = trigo,
                                soja_ars = soja, tipo_cambio_usd = exchange_rate,
                                maiz_usd = py_round qm 2, trigo_usd = py_round qt 2,
                                soja_usd = py_round qs 2\<rparr>]))))))))"

text \<open>
  \<^verbatim>\<open>build_prices_csv\<close> from the two loaded JSON documents on: the result is the list of
  data rows written after the header.
\<close>

definition build_prices_csv :: "(string \<Rightarrow> exn + 'd::linorder) \<Rightarrow> pyval dict dict dict dict \<Rightarrow> pyfloat dict \<Rightarrow> exn + price_row list" where
  "build_prices_csv strptime prices_data exchange_rates =
     (let prices_by_date = extract_cereal_prices_by_date prices_data [''maiz'', ''trigo'', ''soja''];
          sorted_dates = sort (map fst prices_by_date)
      in write_rows strptime exchange_rates prices_by_date sorted_dates [])"

text \<open>A float that is a whole number of hundredths.\<close>

fun two_decimals :: "pyfloat \<Rightarrow> bool" where
  "two_decimals (Finite x) = (x * 100 = of_int \<lfloor>x * 100\<rfloor>)"
| "two_decimals x = False"

fun isfinite :: "pyfloat \<Rightarrow> bool" where
  "isfinite (Finite x) = True"
| "isfinite x = False"

section \<open>Example data for the price builder\<close>

text \<open>
  A stand-in for \<^verbatim>\<open>datetime.strptime(s, '%Y-%m-%d')\<close> on zero-padded dates
  \<open>YYYY-MM-DD\<close>: the point in time is the triple of year, month and day, compared first
  by year, then by month, then by day, here as the number \<open>10000 * Y + 100 * M + D\<close>.
  Any other text is rejected.
\<close>

definition is_digit :: "char \<Rightarrow> bool" where
  "is_digit c = (48 \<le> (of_char c :: nat) \<and> (of_char c :: nat) \<le> 57)"

fun digits_value :: "nat \<Rightarrow> string \<Rightarrow> nat" where
  "digits_value acc [] = acc"
| "digits_value acc (c # cs) = digits_value (10 * acc + (of_char c - 48)) cs"

definition iso_day :: "string \<Rightarrow> nat" where
  "iso_day s =
     10000 * digits_value 0 (take 4 s) + 100 * digits_value 0 (take 2 (drop 5 s))
       + digits_value 0 (drop 8 s)"

definition iso_strptime :: "string \<Rightarrow> exn + nat" where
  "iso_strptime s =
     (if length s = 10 \<and> s ! 4 = CHR ''-'' \<and> s ! 7 = CHR ''-''
         \<and> list_all is_digit (take 4 s @ take 2 (drop 5 s) @ drop 8 s)
      then Inr (iso_day s)
      else Inl ValueError)"

text \<open>
  Rates for two days (60 and 62.125), and prices for four: complete on 3 and 6 January
  2020 (the soy price of 6 January is an estimate), without soy on 4 January, and from
  before the start date on 29 June 2018. \<open>example_row_3\<close> and \<open>example_row_6\<close> are the
  two rows the builder writes for them.
\<close>

definition example_rates :: "pyfloat dict" where
  "example_rates = [(''2020-01-02'', Finite 60), (''2020-01-03'', Finite (497 / 8))]"

definition quote :: "string \<Rightarrow> real \<Rightarrow> pyval dict" where
  "quote s x = [(''precio'', Numeric s (Finite x))]"

definition example_prices :: "pyval dict dict dict dict" where
  "example_prices =
     [(''pizarra'',
       [(''2020-01-06'',
           [(''maiz'', quote ''9000'' 9000), (''trigo'', quote ''12000'' 12000),
            (''soja'', [(''precio'', Numeric ''0.00'' (Finite 0)),
                       (''estimativo'', Numeric ''15000.5'' (Finite (30001 / 2)))])]),
        (''2020-01-03'',
           [(''maiz'', quote ''100.123'' (100123 / 1000)), (''trigo'', quote ''200'' 200),
            (''soja'', quote ''300'' 300)]),
        (''2020-01-04'',
           [(''maiz'', quote ''100'' 100), (''trigo'', quote ''200'' 200),
            (''soja'', quote ''0.00'' 0)]),
        (''2018-06-29'',
           [(''maiz'', quote ''100'' 100), (''trigo'', quote ''200'' 200),
            (''soja'', quote ''300'' 300)])])]"

definition example_row_3 :: price_row where
  "example_row_3 =
     \<lparr>fecha = ''2020-01-03'', maiz_ars = Finite (100123 / 1000), trigo_ars = Finite 200,
      soja_ars = Finite 300, tipo_cambio_usd = Finite (497 / 8),
      maiz_usd = Finite (161 / 100), trigo_usd = Finite (161 / 50),
      soja_usd = Finite (483 / 100)\<rparr>"

definition example_row_6 :: price_row where
  "example_row_6 =
     \<lparr>fecha = ''2020-01-06'', maiz_ars = Finite 9000, trigo_ars = Finite 12000,
      soja_ars = Finite (30001 / 2), tipo_cambio_usd = Finite (497 / 8),
      maiz_usd = Finite (14487 / 100), trigo_usd = Finite (4829 / 25),
      soja_usd = Finite (12073 / 50)\<rparr>"

section \<open>The scenario of the specification\<close>

text \<open>
  A table with the columns \<open>fecha\<close> and \<open>precio\<close>; \<open>scenario_rows\<close> is the series
  \<open>[100, 100, 100, 200, 100, 100]\<close> on six consecutive days.
\<close>

definition scenario_row :: "string \<Rightarrow> string \<Rightarrow> real \<Rightarrow> row" where
  "scenario_row d s x = [(''fecha'', Text d), (''precio'', Numeric s (Finite x))]"

definition scenario_rows :: "row list" where
  "scenario_rows =
     [scenario_row ''2020-01-01'' ''100'' 100,
      scenario_row ''2020-01-02'' ''100'' 100,
      scenario_row ''2020-01-03'' ''100'' 100,
      scenario_row ''2020-01-04'' ''200'' 200,
      scenario_row ''2020-01-05'' ''100'' 100,
      scenario_row ''2020-01-06'' ''100'' 100]"

text \<open>
  Further tables over the same two columns:
  \<^item> \<open>end_jump_rows\<close>: \<open>[100, 200]\<close>, a jump of 100 per cent at the last record;
  \<^item> \<open>double_spike_rows\<close>: \<open>[100, 900, 100, 200, 100, 100]\<close>, which agrees with
    \<open>scenario_rows\<close> from index 2 on;
  \<^item> \<open>sustained_rows\<close>: \<open>[100, 200, 200]\<close>, a jump that stays; \<open>unread_rows\<close> adds a
    fourth row that has no \<open>precio\<close> entry at all;
  \<^item> \<open>gap_rows\<close>: \<open>[100, n/a, 100]\<close>, a text that is not a number at index 1.
\<close>

definition end_jump_rows :: "row list" where
  "end_jump_rows =
     [scenario_row ''2020-01-01'' ''100'' 100,
      scenario_row ''2020-01-02'' ''200'' 200]"

definition double_spike_rows :: "row list" where
  "double_spike_rows =
     [scenario_row ''2020-01-01'' ''100'' 100,
      scenario_row ''2020-01-02'' ''900'' 900,
      scenario_row ''2020-01-03'' ''100'' 100,
      scenario_row ''2020-01-04'' ''200'' 200,
      scenario_row ''2020-01-05'' ''100'' 100,
      scenario_row ''2020-01-06'' ''100'' 100]"

definition sustained_rows :: "row list" where
  "sustained_rows =
     [scenario_row ''2020-01-01'' ''100'' 100,
      scenario_row ''2020-01-02'' ''200'' 200,
      scenario_row ''2020-01-03'' ''200'' 200]"

definition unread_rows :: "row list" where
  "unread_rows = sustained_rows @ [[(''fecha'', Text ''2020-01-04'')]]"

definition gap_rows :: "row list" where
  "gap_rows =
     [scenario_row ''2020-01-01'' ''100'' 100,
      [(''fecha'', Text ''2020-01-02''), (''precio'', Text ''n/a'')],
      scenario_row ''2020-01-03'' ''100'' 100]"

section \<open>Properties of the sanitizer\<close>



lemma float_error: "float v = Inl e \<Longrightarrow> e = ValueError \<or> e = TypeError"
  by (cases v) auto

lemma is_sustained_change_error:
  "is_sustained_change all_rows i col cv pv js = Inl e \<Longrightarrow> e = KeyError"
  by (induction js) (auto simp: getitem_def split: if_splits sum.splits option.splits)

lemma column_try_error:
  "column_try all_rows i previous_row row col = Inl e \<Longrightarrow>
     e = KeyError \<or> e = ValueError \<or> e = TypeError"
  by (auto simp: column_try_def getitem_def split: sum.splits option.splits if_splits
        dest: is_sustained_change_error float_error)

lemma check_columns_result:
  "check_columns all_rows i previous_row row cols b = Inr x \<Longrightarrow>
     x = (b \<or> (\<exists>c\<in>set cols. column_try all_rows i previous_row row c = Inr True))"
  by (induction cols arbitrary: b) (auto split: sum.splits if_splits)

lemma check_columns_total:
  "(\<forall>c\<in>set cols. column_try all_rows i previous_row row c \<noteq> Inl KeyError) \<Longrightarrow>
     \<exists>x. check_columns all_rows i previous_row row cols b = Inr x"
proof (induction cols arbitrary: b)
  case Nil
  then show ?case by simp
next
  case (Cons c cols)
  then show ?case
    by (cases "column_try all_rows i previous_row row c") (auto dest: column_try_error)
qed

lemma sanitize_rows_result:
  "sanitize_rows cols A ps out = Inr out' \<Longrightarrow>
     fieldnames out' = fieldnames out \<and>
     rows_to_keep out' = rows_to_keep out @
       map snd (filter (\<lambda>(i, row). i = 0 \<or> check_columns A i (A ! (i - 1)) row cols False = Inr False) ps) \<and>
     map fst (warnings out') = map fst (warnings out) @
       map (\<lambda>(i, row). i + 2)
         (filter (\<lambda>(i, row). i \<noteq> 0 \<and> check_columns A i (A ! (i - 1)) row cols False = Inr True) ps)"
proof (induction ps arbitrary: out)
  case Nil
  then show ?case by simp
next
  case (Cons p ps)
  obtain i row where p: "p = (i, row)" by (cases p)
  show ?case
  proof (cases "i = 0")
    case True
    with Cons.prems p have
      "sanitize_rows cols A ps (out\<lparr>rows_to_keep := rows_to_keep out @ [row]\<rparr>) = Inr out'"
      by simp
    from Cons.IH [OF this] True p show ?thesis by simp
  next
    case False
    show ?thesis
    proof (cases "check_columns A i (A ! (i - 1)) row cols False")
      case (Inl e)
      with Cons.prems p False show ?thesis by simp
    next
      case (Inr b)
      show ?thesis
      proof (cases b)
        case True
        with Cons.prems p False Inr obtain d where
          "sanitize_rows cols A ps (out\<lparr>warnings := warnings out @ [(i + 2, d)]\<rparr>) = Inr out'"
          by (auto split: sum.splits)
        from Cons.IH [OF this] True p False Inr show ?thesis by simp
      next
        case F: False
        with Cons.prems p False Inr have
          "sanitize_rows cols A ps (out\<lparr>rows_to_keep := rows_to_keep out @ [row]\<rparr>) = Inr out'"
          by simp
        from Cons.IH [OF this] F p False Inr show ?thesis by simp
      qed
    qed
  qed
qed

lemma sanitize_rows_total:
  "(\<forall>(i, row)\<in>set ps. i \<noteq> 0 \<longrightarrow>
      (\<exists>b. check_columns A i (A ! (i - 1)) row cols False = Inr b) \<and> map_of row ''fecha'' \<noteq> None) \<Longrightarrow>
   \<exists>out'. sanitize_rows cols A ps out = Inr out'"
proof (induction ps arbitrary: out)
  case Nil
  then show ?case by simp
next
  case (Cons p ps)
  obtain i row where p: "p = (i, row)" by (cases p)
  from Cons.prems have rest: "\<forall>(i, row)\<in>set ps. i \<noteq> 0 \<longrightarrow>
      (\<exists>b. check_columns A i (A ! (i - 1)) row cols False = Inr b) \<and> map_of row ''fecha'' \<noteq> None"
    by simp
  show ?case
  proof (cases "i = 0")
    case True
    with p Cons.IH [OF rest] show ?thesis by simp
  next
    case False
    with Cons.prems p obtain b d where
      "check_columns A i (A ! (i - 1)) row cols False = Inr b" "map_of row ''fecha'' = Some d"
      by auto
    with p False Cons.IH [OF rest] show ?thesis by (simp add: getitem_def)
  qed
qed

lemma enumerate_pairs:
  "(i, row) \<in> set (List.enumerate 0 A) \<longleftrightarrow> i < length A \<and> row = A ! i"
  by (auto simp: in_set_enumerate_eq)


lemma sanitize_csv_discarded:
  assumes "sanitize_csv header A = Inr out"
  shows "n \<in> fst ` set (warnings out) \<longleftrightarrow>
     (\<exists>i. 0 < i \<and> i < length A \<and> n = i + 2 \<and>
        check_columns A i (A ! (i - 1)) (A ! i) (filter is_numeric_column header) False = Inr True)"
proof -
  from sanitize_rows_result [OF assms [unfolded sanitize_csv_def]]
  have "map fst (warnings out) =
     map (\<lambda>(i, row). i + 2)
       (filter (\<lambda>(i, row). i \<noteq> 0 \<and>
          check_columns A i (A ! (i - 1)) row (filter is_numeric_column header) False = Inr True)
        (List.enumerate 0 A))"
    by simp
  then have "fst ` set (warnings out) =
     (\<lambda>(i, row). i + 2) ` {p \<in> set (List.enumerate 0 A). case p of (i, row) \<Rightarrow> i \<noteq> 0 \<and>
          check_columns A i (A ! (i - 1)) row (filter is_numeric_column header) False = Inr True}"
    by (metis set_map set_filter)
  then show ?thesis
    by (auto simp: enumerate_pairs image_iff)
qed

lemma sanitize_csv_kept:
  assumes "sanitize_csv header A = Inr out"
  shows "rows_to_keep out =
     map snd (filter (\<lambda>(i, row). i = 0 \<or>
        check_columns A i (A ! (i - 1)) row (filter is_numeric_column header) False = Inr False)
       (List.enumerate 0 A))"
  using sanitize_rows_result [OF assms [unfolded sanitize_csv_def]] by simp

text \<open>
  output_is_subsequence_with_header. When \<open>sanitize_csv\<close> completes, the header it writes is the header it read; the
  rows it keeps are rows of the input, unchanged and in their original order (a
  subsequence of the input); and the first row of a table that has rows is kept.
\<close>

theorem output_is_subsequence_with_header:
  assumes "sanitize_csv header all_rows = Inr out"
  shows "fieldnames out = header \<and> subseq (rows_to_keep out) all_rows \<and>
         (all_rows \<noteq> [] \<longrightarrow> rows_to_keep out \<noteq> [] \<and> hd (rows_to_keep out) = hd all_rows)"
proof -
  have hdr: "fieldnames out = header"
    using sanitize_rows_result [OF assms [unfolded sanitize_csv_def]] by simp
  let ?P = "\<lambda>(i, row). i = 0 \<or>
        check_columns all_rows i (all_rows ! (i - 1)) row (filter is_numeric_column header) False = Inr False"
  have kept: "rows_to_keep out = map snd (filter ?P (List.enumerate 0 all_rows))"
    by (rule sanitize_csv_kept [OF assms])
  have "subseq (map snd (filter ?P (List.enumerate 0 all_rows))) (map snd (List.enumerate 0 all_rows))"
    by (intro subseq_map subseq_filter_left)
  then have sub: "subseq (rows_to_keep out) all_rows"
    by (simp add: kept)
  have first: "rows_to_keep out \<noteq> [] \<and> hd (rows_to_keep out) = hd all_rows" if "all_rows \<noteq> []"
  proof -
    from that obtain r rs where "all_rows = r # rs" by (cases all_rows) auto
    then show ?thesis by (simp add: kept)
  qed
  from hdr sub first show ?thesis by blast
qed


lemma is_sustained_change_total:
  "(\<forall>r\<in>set A. map_of r col \<noteq> None) \<Longrightarrow> \<exists>b. is_sustained_change A i col cv pv js = Inr b"
  by (induction js) (auto simp: getitem_def all_set_conv_all_nth split: sum.splits option.splits)

lemma column_try_no_KeyError:
  assumes "\<forall>r\<in>set A. map_of r col \<noteq> None" "map_of previous_row col \<noteq> None" "map_of row col \<noteq> None"
  shows "column_try A i previous_row row col \<noteq> Inl KeyError"
proof -
  have "is_sustained_change A i col cv pv [1, 2] \<noteq> Inl e" for cv pv e
    using is_sustained_change_total [OF assms(1), of i cv pv "[1, 2]"] by auto
  with assms(2,3) show ?thesis
    by (auto simp: column_try_def getitem_def simp del: is_sustained_change.simps
          split: sum.splits dest: float_error)
qed

lemma is_sustained_change_agree:
  assumes "\<forall>j\<in>set js. (i + j < length A \<longleftrightarrow> i + j < length B) \<and> (i + j < length A \<longrightarrow> A ! (i + j) = B ! (i + j))"
  shows "is_sustained_change A i col cv pv js = is_sustained_change B i col cv pv js"
  using assms by (induction js) (auto split: sum.splits)

lemma column_try_agree:
  assumes "\<forall>j\<in>{1, 2}. (i + j < length A \<longleftrightarrow> i + j < length B) \<and> (i + j < length A \<longrightarrow> A ! (i + j) = B ! (i + j))"
  shows "column_try A i previous_row row col = column_try B i previous_row row col"
proof -
  have "is_sustained_change A i col cv pv [1, 2] = is_sustained_change B i col cv pv [1, 2]" for cv pv
    by (rule is_sustained_change_agree) (use assms in simp)
  then show ?thesis by (simp only: column_try_def)
qed

lemma check_columns_cong:
  "(\<forall>c\<in>set cols. column_try A i p r c = column_try B i p r c) \<Longrightarrow>
     check_columns A i p r cols b = check_columns B i p r cols b"
  by (induction cols arbitrary: b) (auto split: sum.splits)

lemma sanitize_csv_check_columns:
  assumes "sanitize_csv header A = Inr out" "1 \<le> i" "i < length A"
  shows "\<exists>b. check_columns A i (A ! (i - 1)) (A ! i) (filter is_numeric_column header) False = Inr b"
proof -
  let ?cols = "filter is_numeric_column header"
  let ?chk = "check_columns A i (A ! (i - 1)) (A ! i) ?cols False"
  have "(i, A ! i) \<in> set (List.enumerate 0 A)"
    using assms(3) by (simp add: enumerate_pairs)
  then obtain ps qs where split: "List.enumerate 0 A = ps @ (i, A ! i) # qs"
    by (meson split_list)
  show ?thesis
  proof (cases ?chk)
    case (Inl e)
    have "sanitize_rows ?cols A (ps @ (i, A ! i) # qs) out0 \<noteq> Inr out" for out0
      using Inl assms(2)
      by (induction ps arbitrary: out0) (auto split: sum.splits if_splits)
    with assms(1) split show ?thesis by (simp add: sanitize_csv_def)
  next
    case (Inr b)
    then show ?thesis by blast
  qed
qed

lemma sanitize_csv_discarded_column:
  assumes "sanitize_csv header A = Inr out" "1 \<le> i" "i < length A"
  shows "i + 2 \<in> fst ` set (warnings out) \<longleftrightarrow>
     (\<exists>col\<in>set (filter is_numeric_column header).
        column_try A i (A ! (i - 1)) (A ! i) col = Inr True)"
proof -
  let ?cols = "filter is_numeric_column header"
  let ?chk = "check_columns A i (A ! (i - 1)) (A ! i) ?cols False"
  have "i + 2 \<in> fst ` set (warnings out) \<longleftrightarrow> ?chk = Inr True"
    using assms(2,3) by (auto simp: sanitize_csv_discarded [OF assms(1)])
  moreover obtain b where b: "?chk = Inr b"
    using sanitize_csv_check_columns [OF assms] by blast
  ultimately show ?thesis
    using check_columns_result [OF b] by auto
qed

text \<open>
  discard_compares_with_original_previous_row. For every record at index \<open>i \<ge> 1\<close>, the record is discarded (a warning with row
  number \<open>i + 2\<close> is printed) exactly when some numeric column, compared between the
  original record \<open>i - 1\<close> and record \<open>i\<close>, marks it. The rows kept or discarded so
  far play no part: the comparison base is \<open>all_rows ! (i - 1)\<close> whether or not that
  record was discarded.
\<close>

theorem discard_compares_with_original_previous_row:
  assumes "sanitize_csv header all_rows = Inr out" "1 \<le> i" "i < length all_rows"
  shows "i + 2 \<in> fst ` set (warnings out) \<longleftrightarrow>
     (\<exists>col\<in>set (filter is_numeric_column header).
        column_try all_rows i (all_rows ! (i - 1)) (all_rows ! i) col = Inr True)"
  using assms by (rule sanitize_csv_discarded_column)

text \<open>
  decision_is_local. Two tables with the same header that agree on the records \<open>i - 1\<close>, \<open>i\<close>,
  \<open>i + 1\<close> and \<open>i + 2\<close> (each present in both or in neither, and equal when present)
  get the same decision for record \<open>i\<close>, whatever the other records are and however
  they are classified.
\<close>

theorem decision_is_local:
  assumes "sanitize_csv header A = Inr out_A" "sanitize_csv header B = Inr out_B"
    and "i < length A" "i < length B"
    and agree: "\<forall>k\<in>{i - 1, i, i + 1, i + 2}.
           (k < length A \<longleftrightarrow> k < length B) \<and> (k < length A \<longrightarrow> A ! k = B ! k)"
  shows "i + 2 \<in> fst ` set (warnings out_A) \<longleftrightarrow> i + 2 \<in> fst ` set (warnings out_B)"
proof -
  let ?cols = "filter is_numeric_column header"
  have rows: "A ! i = B ! i" "A ! (i - 1) = B ! (i - 1)"
    using agree assms(3) by auto
  have "\<forall>j\<in>{1, 2}. (i + j < length A \<longleftrightarrow> i + j < length B) \<and>
          (i + j < length A \<longrightarrow> A ! (i + j) = B ! (i + j))"
    using agree by simp
  then have "column_try A i p r c = column_try B i p r c" for p r c
    by (rule column_try_agree)
  then have "check_columns A i (A ! (i - 1)) (A ! i) ?cols False =
             check_columns B i (B ! (i - 1)) (B ! i) ?cols False"
    unfolding rows by (intro check_columns_cong) simp
  then show ?thesis
    using assms(3,4)
    by (simp add: sanitize_csv_discarded [OF assms(1)] sanitize_csv_discarded [OF assms(2)])
qed

lemma sanitize_csv_last_discarded:
  assumes "sanitize_csv header A = Inr out" "1 \<le> i" "i + 1 = length A"
    and "check_columns A i (A ! (i - 1)) (A ! i) (filter is_numeric_column header) False = Inr True"
  shows "subseq (rows_to_keep out) (butlast A)"
proof -
  let ?P = "\<lambda>(i, row). i = 0 \<or>
        check_columns A i (A ! (i - 1)) row (filter is_numeric_column header) False = Inr False"
  from assms(3) have ne: "A \<noteq> []" and "i = length A - 1"
    by auto
  then have "A \<noteq> []" "last A = A ! i"
    by (simp_all add: last_conv_nth)
  with assms(3) have A: "A = butlast A @ [A ! i]" "length (butlast A) = i"
    using append_butlast_last_id [of A] by auto
  have "List.enumerate 0 (butlast A @ [A ! i]) = List.enumerate 0 (butlast A) @ [(i, A ! i)]"
    using assms(3) by (simp add: enumerate_append_eq)
  with A(1) have "List.enumerate 0 A = List.enumerate 0 (butlast A) @ [(i, A ! i)]"
    by metis
  then have "rows_to_keep out = map snd (filter ?P (List.enumerate 0 (butlast A)))"
    using assms(2,4) by (simp add: sanitize_csv_kept [OF assms(1)])
  moreover have "subseq (map snd (filter ?P (List.enumerate 0 (butlast A))))
                   (map snd (List.enumerate 0 (butlast A)))"
    by (intro subseq_map subseq_filter_left)
  ultimately show ?thesis by simp
qed

text \<open>
  C1, amended. If the last record of the table differs from the record before it by
  more than the threshold in some numeric column (both values numeric), that column
  marks it as an outlier, and a run of \<open>sanitize_csv\<close> that completes discards the last
  record: its warning is printed and the kept rows are taken from the rows before it.
\<close>

theorem final_jump_is_discarded:
  assumes "sanitize_csv header all_rows = Inr out"
    and "1 \<le> i" "i + 1 = length all_rows"
    and "col \<in> set header" "is_numeric_column col"
    and "getitem (all_rows ! i) col = Inr c" "float c = Inr current_value"
    and "getitem (all_rows ! (i - 1)) col = Inr p" "float p = Inr previous_value"
    and "fgt (calculate_percentage_difference current_value previous_value)
           OUTLIER_THRESHOLD_PERCENTAGE"
  shows "column_try all_rows i (all_rows ! (i - 1)) (all_rows ! i) col = Inr True \<and>
         i + 2 \<in> fst ` set (warnings out) \<and>
         subseq (rows_to_keep out) (butlast all_rows)"
proof -
  let ?cols = "filter is_numeric_column header"
  have col: "column_try all_rows i (all_rows ! (i - 1)) (all_rows ! i) col = Inr True"
    using assms(3,6-10) by (simp add: column_try_def)
  have i: "i < length all_rows" using assms(3) by simp
  have "col \<in> set ?cols" using assms(4,5) by simp
  with col have dis: "i + 2 \<in> fst ` set (warnings out)"
    using sanitize_csv_discarded_column [OF assms(1,2) i] by blast
  then have "check_columns all_rows i (all_rows ! (i - 1)) (all_rows ! i) ?cols False = Inr True"
    by (auto simp: sanitize_csv_discarded [OF assms(1)])
  from sanitize_csv_last_discarded [OF assms(1-3) this] col dis show ?thesis by simp
qed


lemma column_try_numeric:
  assumes "getitem row col = Inr c" "float c = Inr current_value"
    and "getitem previous_row col = Inr p" "float p = Inr previous_value"
  shows "column_try A i previous_row row col =
     (if fgt (calculate_percentage_difference current_value previous_value)
           OUTLIER_THRESHOLD_PERCENTAGE
      then (case is_sustained_change A i col current_value previous_value [1, 2] of
              Inl e \<Rightarrow> Inl e
            | Inr sustained \<Rightarrow> Inr (\<not> sustained))
      else Inr False)"
  using assms by (simp add: column_try_def del: is_sustained_change.simps)

lemma take_agree:
  assumes "take n xs = take n ys" "k < n"
  shows "xs ! k = ys ! k" "k < length xs \<longleftrightarrow> k < length ys"
proof -
  show "xs ! k = ys ! k"
    using assms by (metis nth_take)
  have "min n (length xs) = min n (length ys)"
    using assms(1) by (metis length_take min.commute)
  with assms(2) show "k < length xs \<longleftrightarrow> k < length ys"
    by auto
qed

text \<open>
  sustained_change_is_kept. Let the value of a column at record \<open>i\<close> differ from the value at record
  \<open>i - 1\<close> by more than the threshold, and let the record at offset \<open>j\<close> (1 or 2)
  exist, with a numeric value \<open>next_value\<close> such that
  \<open>|current - next| \<le> |previous - next|\<close> (when \<open>j = 2\<close>, the record at offset 1 has an
  entry for the column, as every row read by \<^verbatim>\<open>csv.DictReader\<close> has). Then the column
  does not mark record \<open>i\<close>. The scan stops there: the result is the same in every table
  \<open>rows'\<close> that agrees with \<open>all_rows\<close> up to index \<open>i + j\<close>, whatever comes after.
\<close>

theorem sustained_change_is_kept:
  assumes "getitem (all_rows ! i) col = Inr c" "float c = Inr current_value"
    and "getitem (all_rows ! (i - 1)) col = Inr p" "float p = Inr previous_value"
    and "fgt (calculate_percentage_difference current_value previous_value)
           OUTLIER_THRESHOLD_PERCENTAGE"
    and "j = 1 \<or> j = 2" "i + j < length all_rows"
    and "getitem (all_rows ! (i + j)) col = Inr n" "float n = Inr next_value"
    and "fle (fabs (fsub current_value next_value)) (fabs (fsub previous_value next_value))"
    and "j = 2 \<longrightarrow> map_of (all_rows ! (i + 1)) col \<noteq> None"
    and "take (i + j + 1) rows' = take (i + j + 1) all_rows"
  shows "column_try rows' i (rows' ! (i - 1)) (rows' ! i) col = Inr False"
proof -
  note agree = take_agree [OF assms(12)]
  have same: "rows' ! i = all_rows ! i" "rows' ! (i - 1) = all_rows ! (i - 1)"
    "rows' ! (i + j) = all_rows ! (i + j)" "i + j < length rows'"
    using agree [of i] agree [of "i - 1"] agree [of "i + j"] assms(7) by simp_all
  have "is_sustained_change rows' i col current_value previous_value [1, 2] = Inr True"
  proof (cases "j = 1")
    case True
    with same assms(8-10) show ?thesis by simp
  next
    case False
    with assms(6) have j: "j = 2" by simp
    have one: "rows' ! (i + 1) = all_rows ! (i + 1)" "i + 1 < length rows'"
      using agree [of "i + 1"] same(4) j by simp_all
    from assms(11) j obtain w where "getitem (rows' ! (i + 1)) col = Inr w"
      using one(1) by (auto simp: getitem_def)
    with j same assms(8-10) one(2) show ?thesis
      by (cases "float w") simp_all
  qed
  then have "column_try rows' i (all_rows ! (i - 1)) (all_rows ! i) col = Inr False"
    by (simp only: column_try_numeric [OF assms(1-4)] assms(5) if_True sum.case not_True_eq_False)
  then show ?thesis
    by (simp only: same)
qed

lemma column_try_bad_current:
  "map_of row col = Some v \<Longrightarrow> float v = Inl e \<Longrightarrow> column_try A i p row col = Inl e"
  by (simp add: column_try_def getitem_def)

lemma column_try_bad_previous:
  "map_of p col = Some v \<Longrightarrow> float v = Inl e \<Longrightarrow> \<exists>e'. column_try A i p row col = Inl e'"
  by (auto simp: column_try_def getitem_def split: sum.splits option.splits)

lemma sanitize_csv_total:
  assumes "''fecha'' \<in> set header" "\<forall>row\<in>set A. \<forall>c\<in>set header. map_of row c \<noteq> None"
  shows "\<exists>out. sanitize_csv header A = Inr out"
proof -
  let ?cols = "filter is_numeric_column header"
  have step: "(\<exists>b. check_columns A i (A ! (i - 1)) row ?cols False = Inr b) \<and>
      map_of row ''fecha'' \<noteq> None"
    if in_rows: "(i, row) \<in> set (List.enumerate 0 A)" for i row
  proof -
    from in_rows have i: "i < length A" "i - 1 < length A" and row: "row = A ! i"
      by (auto simp: enumerate_pairs)
    then have mem: "row \<in> set A" "A ! (i - 1) \<in> set A"
      by simp_all
    have "column_try A i (A ! (i - 1)) row c \<noteq> Inl KeyError" if "c \<in> set ?cols" for c
    proof -
      from that have c: "c \<in> set header" by simp
      with assms(2) mem show ?thesis
        by (intro column_try_no_KeyError) blast+
    qed
    then have "\<exists>b. check_columns A i (A ! (i - 1)) row ?cols False = Inr b"
      by (intro check_columns_total) blast
    moreover have "map_of row ''fecha'' \<noteq> None"
      using assms mem(1) by blast
    ultimately show ?thesis by blast
  qed
  have "\<forall>(i, row)\<in>set (List.enumerate 0 A). i \<noteq> 0 \<longrightarrow>
      (\<exists>b. check_columns A i (A ! (i - 1)) row ?cols False = Inr b) \<and> map_of row ''fecha'' \<noteq> None"
    using step by blast
  from sanitize_rows_total [OF this] show ?thesis
    unfolding sanitize_csv_def by blast
qed

text \<open>
  non_numeric_value_is_skipped. Let every row have an entry for every column of the header, \<open>fecha\<close> among them
  (what \<^verbatim>\<open>csv.DictReader\<close> returns), and let the value of column \<open>col\<close> in record
  \<open>i\<close> be one that \<^verbatim>\<open>float()\<close> rejects. Then \<open>sanitize_csv\<close> completes; record \<open>i\<close> is
  discarded only if another column marks it, and so is record \<open>i + 1\<close>, for which the
  value is the previous one; and a lookahead that reaches record \<open>i\<close> skips it and goes
  on with the next offset.
\<close>

theorem non_numeric_value_is_skipped:
  assumes "''fecha'' \<in> set header"
    and "\<forall>row\<in>set all_rows. \<forall>c\<in>set header. map_of row c \<noteq> None"
    and "i < length all_rows" "col \<in> set header"
    and "map_of (all_rows ! i) col = Some v" "float v = Inl e"
  shows "\<exists>out. sanitize_csv header all_rows = Inr out \<and>
     (i + 2 \<in> fst ` set (warnings out) \<longleftrightarrow>
        1 \<le> i \<and> (\<exists>c\<in>set (filter is_numeric_column header) - {col}.
                  column_try all_rows i (all_rows ! (i - 1)) (all_rows ! i) c = Inr True)) \<and>
     (i + 3 \<in> fst ` set (warnings out) \<longleftrightarrow>
        i + 1 < length all_rows \<and> (\<exists>c\<in>set (filter is_numeric_column header) - {col}.
                  column_try all_rows (i + 1) (all_rows ! i) (all_rows ! (i + 1)) c = Inr True)) \<and>
     (\<forall>i' k current_value previous_value js. i' + k = i \<longrightarrow>
        is_sustained_change all_rows i' col current_value previous_value (k # js) =
        is_sustained_change all_rows i' col current_value previous_value js)"
proof -
  let ?cols = "filter is_numeric_column header"
  obtain out where out: "sanitize_csv header all_rows = Inr out"
    using sanitize_csv_total [OF assms(1,2)] by blast
  have cur: "column_try all_rows i (all_rows ! (i - 1)) (all_rows ! i) col \<noteq> Inr True"
    using column_try_bad_current [OF assms(5,6)] by simp
  have nxt: "column_try all_rows (i + 1) (all_rows ! i) (all_rows ! (i + 1)) col \<noteq> Inr True"
    using column_try_bad_previous [OF assms(5,6)] by (metis sum.distinct(1))
  have a: "i + 2 \<in> fst ` set (warnings out) \<longleftrightarrow>
        1 \<le> i \<and> (\<exists>c\<in>set ?cols - {col}.
                  column_try all_rows i (all_rows ! (i - 1)) (all_rows ! i) c = Inr True)"
  proof (cases "1 \<le> i")
    case True
    from sanitize_csv_discarded_column [OF out True assms(3)] cur True show ?thesis
      by auto
  next
    case False
    then show ?thesis by (auto simp: sanitize_csv_discarded [OF out])
  qed
  have b: "i + 3 \<in> fst ` set (warnings out) \<longleftrightarrow>
        i + 1 < length all_rows \<and> (\<exists>c\<in>set ?cols - {col}.
                  column_try all_rows (i + 1) (all_rows ! i) (all_rows ! (i + 1)) c = Inr True)"
  proof (cases "i + 1 < length all_rows")
    case True
    have "i + 1 + 2 \<in> fst ` set (warnings out) \<longleftrightarrow>
       (\<exists>c\<in>set ?cols. column_try all_rows (i + 1) (all_rows ! (i + 1 - 1)) (all_rows ! (i + 1)) c = Inr True)"
      by (rule sanitize_csv_discarded_column [OF out _ True]) simp
    with nxt True show ?thesis
      by (auto simp: numeral_3_eq_3)
  next
    case False
    then show ?thesis by (auto simp: sanitize_csv_discarded [OF out])
  qed
  have c: "is_sustained_change all_rows i' col cv pv (k # js) =
           is_sustained_change all_rows i' col cv pv js" if "i' + k = i" for i' k cv pv js
    using that assms(5,6) by (simp add: getitem_def)
  from out a b c show ?thesis by blast
qed


lemma scenario_run:
  "sanitize_csv [''fecha'', ''precio''] scenario_rows =
     Inr \<lparr>fieldnames = [''fecha'', ''precio''],
          rows_to_keep = [scenario_rows ! 0, scenario_rows ! 1, scenario_rows ! 2,
                          scenario_rows ! 4, scenario_rows ! 5],
          warnings = [(5, Text ''2020-01-04'')]\<rparr>"
  by code_simp

lemma double_spike_run:
  "sanitize_csv [''fecha'', ''precio''] double_spike_rows =
     Inr \<lparr>fieldnames = [''fecha'', ''precio''],
          rows_to_keep = [double_spike_rows ! 0, double_spike_rows ! 2,
                          double_spike_rows ! 4, double_spike_rows ! 5],
          warnings = [(3, Text ''2020-01-02''), (5, Text ''2020-01-04'')]\<rparr>"
  by code_simp

lemma end_jump_run:
  "sanitize_csv [''fecha'', ''precio''] end_jump_rows =
     Inr \<lparr>fieldnames = [''fecha'', ''precio''],
          rows_to_keep = [end_jump_rows ! 0],
          warnings = [(3, Text ''2020-01-02'')]\<rparr>"
  by code_simp

text \<open>
  C1 fails on the code. In the table \<open>[100, 200]\<close> the last record jumps by 100 per cent
  and no record follows it; the lookahead loop finds no candidate, \<open>is_sustained_change\<close>
  stays false, the column marks the row and \<open>sanitize_csv\<close> discards it.
\<close>

theorem final_jump_kept_counterexample:
  "length end_jump_rows = 2
   \<and> getitem (end_jump_rows ! 0) ''precio'' = Inr (Numeric ''100'' (Finite 100))
   \<and> getitem (end_jump_rows ! 1) ''precio'' = Inr (Numeric ''200'' (Finite 200))
   \<and> calculate_percentage_difference (Finite 200) (Finite 100) = Finite 100
   \<and> fgt (Finite 100) OUTLIER_THRESHOLD_PERCENTAGE
   \<and> column_try end_jump_rows 1 (end_jump_rows ! 0) (end_jump_rows ! 1) ''precio'' = Inr True
   \<and> sanitize_csv [''fecha'', ''precio''] end_jump_rows =
       Inr \<lparr>fieldnames = [''fecha'', ''precio''],
            rows_to_keep = [scenario_row ''2020-01-01'' ''100'' 100],
            warnings = [(3, Text ''2020-01-02'')]\<rparr>"
  by code_simp

text \<open>
  The table \<open>[100, 200]\<close> satisfies the premises of the amended C1.
\<close>

theorem final_jump_is_discarded_witness:
  "sanitize_csv [''fecha'', ''precio''] end_jump_rows =
       Inr \<lparr>fieldnames = [''fecha'', ''precio''],
            rows_to_keep = [end_jump_rows ! 0],
            warnings = [(3, Text ''2020-01-02'')]\<rparr>
   \<and> (1::nat) + 1 = length end_jump_rows
   \<and> fgt (calculate_percentage_difference (Finite 200) (Finite 100)) OUTLIER_THRESHOLD_PERCENTAGE
   \<and> column_try end_jump_rows 1 (end_jump_rows ! (1 - 1)) (end_jump_rows ! 1) ''precio'' = Inr True
   \<and> (1::nat) + 2 \<in> fst ` set [(3::nat, Text ''2020-01-02'')]
   \<and> subseq [end_jump_rows ! 0] (butlast end_jump_rows)"
proof -
  have h: "(1::nat) \<le> 1" "(1::nat) + 1 = length end_jump_rows"
    "''precio'' \<in> set [''fecha'', ''precio'']" "is_numeric_column ''precio''"
    "getitem (end_jump_rows ! 1) ''precio'' = Inr (Numeric ''200'' (Finite 200))"
    "float (Numeric ''200'' (Finite 200)) = Inr (Finite 200)"
    "getitem (end_jump_rows ! (1 - 1)) ''precio'' = Inr (Numeric ''100'' (Finite 100))"
    "float (Numeric ''100'' (Finite 100)) = Inr (Finite 100)"
    "fgt (calculate_percentage_difference (Finite 200) (Finite 100)) OUTLIER_THRESHOLD_PERCENTAGE"
    by code_simp+
  from final_jump_is_discarded [OF end_jump_run h] end_jump_run h(2,9) show ?thesis
    by simp
qed

text \<open>
  The scenario table satisfies the premise of output_is_subsequence_with_header: the run completes, and the five kept
  rows are a subsequence of the six read, starting with the first.
\<close>

theorem output_is_subsequence_with_header_witness:
  "sanitize_csv [''fecha'', ''precio''] scenario_rows =
     Inr \<lparr>fieldnames = [''fecha'', ''precio''],
          rows_to_keep = [scenario_rows ! 0, scenario_rows ! 1, scenario_rows ! 2,
                          scenario_rows ! 4, scenario_rows ! 5],
          warnings = [(5, Text ''2020-01-04'')]\<rparr>
   \<and> subseq [scenario_rows ! 0, scenario_rows ! 1, scenario_rows ! 2,
              scenario_rows ! 4, scenario_rows ! 5] scenario_rows
   \<and> scenario_rows \<noteq> []
   \<and> hd [scenario_rows ! 0, scenario_rows ! 1, scenario_rows ! 2,
          scenario_rows ! 4, scenario_rows ! 5] = hd scenario_rows"
proof -
  have ne: "scenario_rows \<noteq> []" by (simp add: scenario_rows_def)
  from output_is_subsequence_with_header [OF scenario_run]
  have sub: "subseq [scenario_rows ! 0, scenario_rows ! 1, scenario_rows ! 2,
              scenario_rows ! 4, scenario_rows ! 5] scenario_rows"
    by simp
  from output_is_subsequence_with_header [OF scenario_run] ne
  have first: "hd [scenario_rows ! 0, scenario_rows ! 1, scenario_rows ! 2,
          scenario_rows ! 4, scenario_rows ! 5] = hd scenario_rows"
    by simp
  from scenario_run sub ne first show ?thesis by blast
qed

text \<open>
  In the scenario, record 3 (value 200) is discarded; record 4 is still compared with
  it, and is kept.
\<close>

theorem discard_compares_with_original_previous_row_witness:
  "sanitize_csv [''fecha'', ''precio''] scenario_rows =
     Inr \<lparr>fieldnames = [''fecha'', ''precio''],
          rows_to_keep = [scenario_rows ! 0, scenario_rows ! 1, scenario_rows ! 2,
                          scenario_rows ! 4, scenario_rows ! 5],
          warnings = [(5, Text ''2020-01-04'')]\<rparr>
   \<and> (4::nat) < length scenario_rows
   \<and> (3::nat) + 2 \<in> fst ` set [(5::nat, Text ''2020-01-04'')]
   \<and> (4::nat) + 2 \<notin> fst ` set [(5::nat, Text ''2020-01-04'')]
   \<and> column_try scenario_rows 4 (scenario_rows ! (4 - 1)) (scenario_rows ! 4) ''precio'' \<noteq> Inr True
   \<and> getitem (scenario_rows ! (4 - 1)) ''precio'' = Inr (Numeric ''200'' (Finite 200))"
proof -
  have h: "(1::nat) \<le> 4" "(4::nat) < length scenario_rows"
    by (simp_all add: scenario_rows_def)
  have "getitem (scenario_rows ! (4 - 1)) ''precio'' = Inr (Numeric ''200'' (Finite 200))"
    by code_simp
  with discard_compares_with_original_previous_row [OF scenario_run h] h(2) scenario_run show ?thesis
    by (simp add: is_numeric_column_def)
qed

text \<open>
  \<open>scenario_rows\<close> and \<open>double_spike_rows\<close> differ at index 1, where only the second
  has a discarded record, and agree from index 2 on: record 3 is discarded in both.
\<close>

theorem decision_is_local_witness:
  "sanitize_csv [''fecha'', ''precio''] scenario_rows =
     Inr \<lparr>fieldnames = [''fecha'', ''precio''],
          rows_to_keep = [scenario_rows ! 0, scenario_rows ! 1, scenario_rows ! 2,
                          scenario_rows ! 4, scenario_rows ! 5],
          warnings = [(5, Text ''2020-01-04'')]\<rparr>
   \<and> sanitize_csv [''fecha'', ''precio''] double_spike_rows =
     Inr \<lparr>fieldnames = [''fecha'', ''precio''],
          rows_to_keep = [double_spike_rows ! 0, double_spike_rows ! 2,
                          double_spike_rows ! 4, double_spike_rows ! 5],
          warnings = [(3, Text ''2020-01-02''), (5, Text ''2020-01-04'')]\<rparr>
   \<and> scenario_rows ! 1 \<noteq> double_spike_rows ! 1
   \<and> scenario_rows ! 2 = double_spike_rows ! 2
   \<and> scenario_rows ! 3 = double_spike_rows ! 3
   \<and> scenario_rows ! 4 = double_spike_rows ! 4
   \<and> scenario_rows ! 5 = double_spike_rows ! 5
   \<and> (3::nat) + 2 \<in> fst ` set [(5::nat, Text ''2020-01-04'')]
   \<and> (3::nat) + 2 \<in> fst ` set [(3::nat, Text ''2020-01-02''), (5, Text ''2020-01-04'')]"
proof -
  have len: "(3::nat) < length scenario_rows" "(3::nat) < length double_spike_rows"
    by (simp_all add: scenario_rows_def double_spike_rows_def)
  have agree: "\<forall>k\<in>{3 - 1, 3, 3 + 1, 3 + 2}.
      (k < length scenario_rows \<longleftrightarrow> k < length double_spike_rows) \<and>
      (k < length scenario_rows \<longrightarrow> scenario_rows ! k = double_spike_rows ! k)"
    by (simp add: scenario_rows_def double_spike_rows_def)
  have diff: "scenario_rows ! 1 \<noteq> double_spike_rows ! 1"
    by (simp add: scenario_rows_def double_spike_rows_def scenario_row_def)
  have same: "scenario_rows ! 2 = double_spike_rows ! 2" "scenario_rows ! 3 = double_spike_rows ! 3"
    "scenario_rows ! 4 = double_spike_rows ! 4" "scenario_rows ! 5 = double_spike_rows ! 5"
    by (simp_all add: scenario_rows_def double_spike_rows_def)
  have a: "(3::nat) + 2 \<in> fst ` set [(5::nat, Text ''2020-01-04'')]"
    by simp
  with decision_is_local [OF scenario_run double_spike_run len agree]
  have b: "(3::nat) + 2 \<in> fst ` set [(3::nat, Text ''2020-01-02''), (5, Text ''2020-01-04'')]"
    by simp
  from scenario_run double_spike_run diff same a b show ?thesis by blast
qed


text \<open>
  In \<open>[100, 200, 200]\<close> the jump at index 1 is sustained by the record at offset 1. In
  \<open>unread_rows\<close> the record at offset 2 has no \<open>precio\<close> entry, so reading it would raise
  \<open>KeyError\<close>; it is never read.
\<close>

theorem sustained_change_is_kept_witness:
  "getitem (sustained_rows ! 1) ''precio'' = Inr (Numeric ''200'' (Finite 200))
   \<and> getitem (sustained_rows ! (1 - 1)) ''precio'' = Inr (Numeric ''100'' (Finite 100))
   \<and> fgt (calculate_percentage_difference (Finite 200) (Finite 100)) OUTLIER_THRESHOLD_PERCENTAGE
   \<and> (1::nat) + 1 < length sustained_rows
   \<and> getitem (sustained_rows ! (1 + 1)) ''precio'' = Inr (Numeric ''200'' (Finite 200))
   \<and> fle (fabs (fsub (Finite 200) (Finite 200))) (fabs (fsub (Finite 100) (Finite 200)))
   \<and> take (1 + 1 + 1) unread_rows = take (1 + 1 + 1) sustained_rows
   \<and> getitem (unread_rows ! 3) ''precio'' = Inl KeyError
   \<and> column_try unread_rows 1 (unread_rows ! (1 - 1)) (unread_rows ! 1) ''precio'' = Inr False"
proof -
  have h: "getitem (sustained_rows ! 1) ''precio'' = Inr (Numeric ''200'' (Finite 200))"
    "float (Numeric ''200'' (Finite 200)) = Inr (Finite 200)"
    "getitem (sustained_rows ! (1 - 1)) ''precio'' = Inr (Numeric ''100'' (Finite 100))"
    "float (Numeric ''100'' (Finite 100)) = Inr (Finite 100)"
    "fgt (calculate_percentage_difference (Finite 200) (Finite 100)) OUTLIER_THRESHOLD_PERCENTAGE"
    "(1::nat) = 1 \<or> (1::nat) = 2"
    "(1::nat) + 1 < length sustained_rows"
    "getitem (sustained_rows ! (1 + 1)) ''precio'' = Inr (Numeric ''200'' (Finite 200))"
    "float (Numeric ''200'' (Finite 200)) = Inr (Finite 200)"
    "fle (fabs (fsub (Finite 200) (Finite 200))) (fabs (fsub (Finite 100) (Finite 200)))"
    "(1::nat) = 2 \<longrightarrow> map_of (sustained_rows ! (1 + 1)) ''precio'' \<noteq> None"
    "take (1 + 1 + 1) unread_rows = take (1 + 1 + 1) sustained_rows"
    by code_simp+
  have k: "getitem (unread_rows ! 3) ''precio'' = Inl KeyError"
    by code_simp
  from sustained_change_is_kept [OF h] h k show ?thesis by blast
qed

lemma gap_run:
  "sanitize_csv [''fecha'', ''precio''] gap_rows =
     Inr \<lparr>fieldnames = [''fecha'', ''precio''], rows_to_keep = gap_rows, warnings = []\<rparr>"
  by code_simp

text \<open>
  \<open>gap_rows\<close> has the text \<open>n/a\<close> at index 1: the run completes and keeps every row.
\<close>

theorem non_numeric_value_is_skipped_witness:
  "''fecha'' \<in> set [''fecha'', ''precio'']
   \<and> list_all (\<lambda>row. list_all (\<lambda>c. map_of row c \<noteq> None) [''fecha'', ''precio'']) gap_rows
   \<and> (1::nat) < length gap_rows
   \<and> map_of (gap_rows ! 1) ''precio'' = Some (Text ''n/a'')
   \<and> float (Text ''n/a'') = Inl ValueError
   \<and> sanitize_csv [''fecha'', ''precio''] gap_rows =
       Inr \<lparr>fieldnames = [''fecha'', ''precio''], rows_to_keep = gap_rows, warnings = []\<rparr>
   \<and> (1::nat) + 2 \<notin> fst ` set ([] :: (nat \<times> pyval) list)
   \<and> is_sustained_change gap_rows 0 ''precio'' (Finite 100) (Finite 100) [1, 2] =
     is_sustained_change gap_rows 0 ''precio'' (Finite 100) (Finite 100) [2]"
proof -
  have all: "list_all (\<lambda>row. list_all (\<lambda>c. map_of row c \<noteq> None) [''fecha'', ''precio'']) gap_rows"
    by code_simp
  have h: "''fecha'' \<in> set [''fecha'', ''precio'']"
    "\<forall>row\<in>set gap_rows. \<forall>c\<in>set [''fecha'', ''precio'']. map_of row c \<noteq> None"
    "(1::nat) < length gap_rows" "''precio'' \<in> set [''fecha'', ''precio'']"
    "map_of (gap_rows ! 1) ''precio'' = Some (Text ''n/a'')"
    "float (Text ''n/a'') = Inl ValueError"
    using all by (simp_all add: list_all_iff gap_rows_def)
  from non_numeric_value_is_skipped [OF h] have
    "is_sustained_change gap_rows 0 ''precio'' (Finite 100) (Finite 100) [1, 2] =
     is_sustained_change gap_rows 0 ''precio'' (Finite 100) (Finite 100) [2]"
    by (metis add_0)
  with all h gap_run show ?thesis by simp
qed

section \<open>Properties of the price builder\<close>


lemma closest_previous_find:
  assumes "\<forall>k\<in>set ks. strptime k = Inr (t k)" "\<forall>k\<in>set ks. map_of R k \<noteq> None"
  shows "closest_previous strptime target R ks =
     Inr (case find (\<lambda>k. t k \<le> target) ks of None \<Rightarrow> None | Some k \<Rightarrow> map_of R k)"
  using assms by (induction ks) (auto simp: getitem_def)

lemma find_descending:
  assumes "sorted (rev ks)" "find P ks = Some m"
  shows "P m \<and> m \<in> set ks \<and> (\<forall>k\<in>set ks. P k \<longrightarrow> k \<le> m)"
  using assms
proof (induction ks)
  case Nil
  then show ?case by simp
next
  case (Cons k ks)
  then have desc: "sorted (rev ks)" "\<forall>x\<in>set ks. x \<le> k"
    by (auto simp: sorted_append)
  show ?case
  proof (cases "P k")
    case True
    with Cons.prems desc show ?thesis by auto
  next
    case False
    with Cons.prems have "find P ks = Some m" by simp
    from Cons.IH [OF desc(1) this] False show ?thesis by auto
  qed
qed

text \<open>
  find_exchange_rate_nearest_previous. Let \<open>strptime\<close> accept the date \<open>d\<close> and every key of the rate series \<open>R\<close>, giving
  the point in time \<open>t k\<close> for the text \<open>k\<close>, and let the order of these texts agree with
  the order of their points in time (as for zero-padded \<open>YYYY-MM-DD\<close> dates). Then
  \<open>find_exchange_rate\<close> returns \<open>R[d]\<close> when \<open>d\<close> is a key of \<open>R\<close>; otherwise the value of
  the greatest key earlier than \<open>d\<close>; and \<open>None\<close> when no key is earlier than \<open>d\<close>.
\<close>

theorem find_exchange_rate_nearest_previous:
  assumes parse: "\<forall>k\<in>insert d (fst ` set R). strptime k = Inr (t k)"
    and mono: "\<forall>a\<in>insert d (fst ` set R). \<forall>b\<in>insert d (fst ` set R). (t a \<le> t b) = (a \<le> b)"
  shows "(d \<in> fst ` set R \<longrightarrow>
            map_of R d \<noteq> None \<and> find_exchange_rate strptime d R = Inr (map_of R d)) \<and>
         (d \<notin> fst ` set R \<and> (\<exists>k\<in>fst ` set R. t k < t d) \<longrightarrow>
            (\<exists>d'\<in>fst ` set R. t d' < t d \<and> (\<forall>k\<in>fst ` set R. t k < t d \<longrightarrow> t k \<le> t d') \<and>
               map_of R d' \<noteq> None \<and> find_exchange_rate strptime d R = Inr (map_of R d'))) \<and>
         (d \<notin> fst ` set R \<and> \<not> (\<exists>k\<in>fst ` set R. t k < t d) \<longrightarrow>
            find_exchange_rate strptime d R = Inr None)"
proof (cases "d \<in> fst ` set R")
  case True
  then obtain r where "map_of R d = Some r"
    by (metis map_of_eq_None_iff not_Some_eq)
  with True show ?thesis by (simp add: find_exchange_rate_def)
next
  case False
  let ?ks = "rev (sort (map fst R))"
  have keys: "set ?ks = fst ` set R" by simp
  have none: "map_of R d = None"
    using False by (simp add: map_of_eq_None_iff)
  have mono': "(t a \<le> t b) = (a \<le> b)"
    if "a \<in> insert d (fst ` set R)" "b \<in> insert d (fst ` set R)" for a b
    using mono that by blast
  have strict: "t k < t d \<longleftrightarrow> t k \<le> t d" if "k \<in> fst ` set R" for k
  proof -
    from that False have "k \<noteq> d" by auto
    moreover from that have "(t k \<le> t d) = (k \<le> d)" "(t d \<le> t k) = (d \<le> k)"
      by (simp_all add: mono')
    ultimately show ?thesis by auto
  qed
  have "closest_previous strptime (t d) R ?ks =
     Inr (case find (\<lambda>k. t k \<le> t d) ?ks of None \<Rightarrow> None | Some k \<Rightarrow> map_of R k)"
    using parse by (intro closest_previous_find) (auto simp: map_of_eq_None_iff)
  with none parse have res: "find_exchange_rate strptime d R =
     Inr (case find (\<lambda>k. t k \<le> t d) ?ks of None \<Rightarrow> None | Some k \<Rightarrow> map_of R k)"
    by (simp add: find_exchange_rate_def)
  show ?thesis
  proof (cases "find (\<lambda>k. t k \<le> t d) ?ks")
    case None
    then have "\<not> (\<exists>k\<in>fst ` set R. t k \<le> t d)"
      unfolding find_None_iff keys by blast
    with False res None strict show ?thesis by auto
  next
    case (Some m)
    have "sorted (rev ?ks)" by simp
    from find_descending [OF this Some]
    have m: "t m \<le> t d" "m \<in> fst ` set R" "\<forall>k\<in>fst ` set R. t k \<le> t d \<longrightarrow> k \<le> m"
      unfolding keys by auto
    have "t k \<le> t m" if "k \<in> fst ` set R" "t k < t d" for k
    proof -
      from that strict m(3) have "k \<le> m" by blast
      with that(1) m(2) show ?thesis by (simp add: mono')
    qed
    then have "\<forall>k\<in>fst ` set R. t k < t d \<longrightarrow> t k \<le> t m"
      by blast
    moreover have "map_of R m \<noteq> None"
      using m(2) by (simp add: map_of_eq_None_iff)
    ultimately show ?thesis
      using False res Some m(1,2) strict by auto
  qed
qed


lemma cereal_loop_entry:
  "map_of (cereal_loop date_data cereals date_prices) c = Some v \<Longrightarrow>
     map_of date_prices c = Some v \<or>
     (c \<in> set cereals \<and> map_of date_data c \<noteq> None \<and> fgt v (Finite 0))"
proof (induction cereals arbitrary: date_prices)
  case Nil
  then show ?case by simp
next
  case (Cons cereal cereals)
  show ?case
  proof (cases "map_of date_data cereal")
    case None
    with Cons.prems have "map_of (cereal_loop date_data cereals date_prices) c = Some v"
      by simp
    from Cons.IH [OF this] show ?thesis by auto
  next
    case (Some cereal_data)
    define price_str where "price_str =
      (if eq_str (dict_get cereal_data ''precio'' (Numeric ''0.00'' (Finite 0))) ''0.00''
       then dict_get cereal_data ''estimativo'' (Numeric ''0.00'' (Finite 0))
       else dict_get cereal_data ''precio'' (Numeric ''0.00'' (Finite 0)))"
    show ?thesis
    proof (cases "float price_str")
      case (Inl e)
      with Cons.prems Some have "map_of (cereal_loop date_data cereals date_prices) c = Some v"
        by (simp add: price_str_def Let_def)
      from Cons.IH [OF this] show ?thesis by auto
    next
      case (Inr price_ars)
      show ?thesis
      proof (cases "fgt price_ars (Finite 0)")
        case True
        with Cons.prems Some Inr have
          "map_of (cereal_loop date_data cereals (AList.update cereal price_ars date_prices)) c = Some v"
          by (simp add: price_str_def Let_def)
        from Cons.IH [OF this] True Some show ?thesis
          by (auto simp: update_conv' split: if_splits)
      next
        case False
        with Cons.prems Some Inr have "map_of (cereal_loop date_data cereals date_prices) c = Some v"
          by (simp add: price_str_def Let_def)
        from Cons.IH [OF this] show ?thesis by auto
      qed
    qed
  qed
qed

lemma pizarra_loop_entry:
  "map_of (pizarra_loop items cereals prices_by_date) d = Some date_prices \<Longrightarrow>
     map_of prices_by_date d = Some date_prices \<or>
     (\<exists>date_data. (d, date_data) \<in> set items \<and> date_prices = cereal_loop date_data cereals [])"
proof (induction items arbitrary: prices_by_date)
  case Nil
  then show ?case by simp
next
  case (Cons item items)
  obtain date_str date_data where item: "item = (date_str, date_data)" by (cases item)
  show ?case
  proof (cases "cereal_loop date_data cereals [] \<noteq> []")
    case True
    with Cons.prems item have "map_of (pizarra_loop items cereals
        (AList.update date_str (cereal_loop date_data cereals []) prices_by_date)) d = Some date_prices"
      by (simp add: Let_def)
    from Cons.IH [OF this] item show ?thesis
      by (auto simp: update_conv' split: if_splits)
  next
    case False
    with Cons.prems item have "map_of (pizarra_loop items cereals prices_by_date) d = Some date_prices"
      by (simp add: Let_def)
    from Cons.IH [OF this] item show ?thesis by auto
  qed
qed

lemma extract_entry:
  assumes "map_of (extract_cereal_prices_by_date prices_data cereals) d = Some date_prices"
  shows "\<exists>date_data. (d, date_data) \<in> set (dict_get prices_data ''pizarra'' []) \<and>
           date_prices = cereal_loop date_data cereals []"
  using pizarra_loop_entry [OF assms [unfolded extract_cereal_prices_by_date_def]] by simp

lemma write_rows_result:
  assumes "write_rows strptime exchange_rates prices_by_date dates written = Inr rows"
    and "r \<in> set rows"
  shows "r \<in> set written \<or>
     (fecha r \<in> set dates \<and> \<not> fecha r < START_DATE \<and>
      find_exchange_rate strptime (fecha r) exchange_rates = Inr (Some (tipo_cambio_usd r)) \<and>
      (\<exists>date_prices. map_of prices_by_date (fecha r) = Some date_prices \<and>
         maiz_ars r = dict_get date_prices ''maiz'' (Finite 0) \<and>
         trigo_ars r = dict_get date_prices ''trigo'' (Finite 0) \<and>
         soja_ars r = dict_get date_prices ''soja'' (Finite 0)) \<and>
      \<not> feq (maiz_ars r) (Finite 0) \<and> \<not> feq (trigo_ars r) (Finite 0) \<and>
      \<not> feq (soja_ars r) (Finite 0) \<and>
      (\<exists>qm qt qs.
         truediv (maiz_ars r) (tipo_cambio_usd r) = Inr qm \<and> maiz_usd r = py_round qm 2 \<and>
         truediv (trigo_ars r) (tipo_cambio_usd r) = Inr qt \<and> trigo_usd r = py_round qt 2 \<and>
         truediv (soja_ars r) (tipo_cambio_usd r) = Inr qs \<and> soja_usd r = py_round qs 2))"
  using assms
proof (induction dates arbitrary: written)
  case Nil
  then show ?case by simp
next
  case (Cons date_str dates)
  note step = Cons.prems(1)
  show ?case
  proof (cases "date_str < START_DATE")
    case True
    with step have "write_rows strptime exchange_rates prices_by_date dates written = Inr rows"
      by simp
    from Cons.IH [OF this Cons.prems(2)] show ?thesis by auto
  next
    case after: False
    show ?thesis
    proof (cases "find_exchange_rate strptime date_str exchange_rates")
      case (Inl e)
      with step after show ?thesis by simp
    next
      case (Inr found)
      show ?thesis
      proof (cases found)
        case None
        with step after Inr
        have "write_rows strptime exchange_rates prices_by_date dates written = Inr rows"
          by simp
        from Cons.IH [OF this Cons.prems(2)] show ?thesis by auto
      next
        case (Some exchange_rate)
        show ?thesis
        proof (cases "map_of prices_by_date date_str")
          case None
          with step after Inr Some show ?thesis by (simp add: getitem_def)
        next
          case dp: (Some date_prices)
          let ?maiz = "dict_get date_prices ''maiz'' (Finite 0)"
          let ?trigo = "dict_get date_prices ''trigo'' (Finite 0)"
          let ?soja = "dict_get date_prices ''soja'' (Finite 0)"
          show ?thesis
          proof (cases "feq ?maiz (Finite 0) \<or> feq ?trigo (Finite 0) \<or> feq ?soja (Finite 0)")
            case True
            with step after Inr Some dp
            have "write_rows strptime exchange_rates prices_by_date dates written = Inr rows"
              by (simp add: getitem_def Let_def)
            from Cons.IH [OF this Cons.prems(2)] show ?thesis by auto
          next
            case nonzero: False
            with step after Inr Some dp obtain qm qt qs where
              q: "truediv ?maiz exchange_rate = Inr qm" "truediv ?trigo exchange_rate = Inr qt"
                 "truediv ?soja exchange_rate = Inr qs"
              and rest: "write_rows strptime exchange_rates prices_by_date dates
                 (written @ [\<lparr>fecha = date_str, maiz_ars = ?maiz, trigo_ars = ?trigo,
                    soja_ars = ?soja, tipo_cambio_usd = exchange_rate,
                    maiz_usd = py_round qm 2, trigo_usd = py_round qt 2,
                    soja_usd = py_round qs 2\<rparr>]) = Inr rows"
              by (auto simp: getitem_def Let_def split: sum.splits)
            from Cons.IH [OF rest Cons.prems(2)] show ?thesis
            proof (elim disjE)
              assume "r \<in> set (written @ [\<lparr>fecha = date_str, maiz_ars = ?maiz, trigo_ars = ?trigo,
                    soja_ars = ?soja, tipo_cambio_usd = exchange_rate,
                    maiz_usd = py_round qm 2, trigo_usd = py_round qt 2,
                    soja_usd = py_round qs 2\<rparr>])"
              then consider "r \<in> set written" | "r = \<lparr>fecha = date_str, maiz_ars = ?maiz,
                    trigo_ars = ?trigo, soja_ars = ?soja, tipo_cambio_usd = exchange_rate,
                    maiz_usd = py_round qm 2, trigo_usd = py_round qt 2,
                    soja_usd = py_round qs 2\<rparr>"
                by auto
              then show ?thesis
              proof cases
                case 1
                then show ?thesis by simp
              next
                case 2
                with after Inr Some dp nonzero q show ?thesis by simp
              qed
            next
              assume "fecha r \<in> set dates \<and> \<not> fecha r < START_DATE \<and>
                find_exchange_rate strptime (fecha r) exchange_rates = Inr (Some (tipo_cambio_usd r)) \<and>
                (\<exists>date_prices. map_of prices_by_date (fecha r) = Some date_prices \<and>
                   maiz_ars r = dict_get date_prices ''maiz'' (Finite 0) \<and>
                   trigo_ars r = dict_get date_prices ''trigo'' (Finite 0) \<and>
                   soja_ars r = dict_get date_prices ''soja'' (Finite 0)) \<and>
                \<not> feq (maiz_ars r) (Finite 0) \<and> \<not> feq (trigo_ars r) (Finite 0) \<and>
                \<not> feq (soja_ars r) (Finite 0) \<and>
                (\<exists>qm qt qs.
                   truediv (maiz_ars r) (tipo_cambio_usd r) = Inr qm \<and> maiz_usd r = py_round qm 2 \<and>
                   truediv (trigo_ars r) (tipo_cambio_usd r) = Inr qt \<and> trigo_usd r = py_round qt 2 \<and>
                   truediv (soja_ars r) (tipo_cambio_usd r) = Inr qs \<and> soja_usd r = py_round qs 2)"
              then show ?thesis by simp
            qed
          qed
        qed
      qed
    qed
  qed
qed


lemma dict_get_nonzero:
  "\<not> feq (dict_get d k (Finite 0)) (Finite 0) \<Longrightarrow> map_of d k = Some (dict_get d k (Finite 0))"
  by (cases "map_of d k") (simp_all add: dict_get_def)

lemma build_prices_csv_row:
  assumes "build_prices_csv strptime prices_data exchange_rates = Inr rows" "r \<in> set rows"
  shows "\<not> fecha r < START_DATE \<and>
      find_exchange_rate strptime (fecha r) exchange_rates = Inr (Some (tipo_cambio_usd r)) \<and>
      (\<exists>date_prices.
         map_of (extract_cereal_prices_by_date prices_data [''maiz'', ''trigo'', ''soja''])
           (fecha r) = Some date_prices \<and>
         map_of date_prices ''maiz'' = Some (maiz_ars r) \<and>
         map_of date_prices ''trigo'' = Some (trigo_ars r) \<and>
         map_of date_prices ''soja'' = Some (soja_ars r)) \<and>
      (\<exists>qm qt qs.
         truediv (maiz_ars r) (tipo_cambio_usd r) = Inr qm \<and> maiz_usd r = py_round qm 2 \<and>
         truediv (trigo_ars r) (tipo_cambio_usd r) = Inr qt \<and> trigo_usd r = py_round qt 2 \<and>
         truediv (soja_ars r) (tipo_cambio_usd r) = Inr qs \<and> soja_usd r = py_round qs 2)"
proof -
  from assms(1) have "write_rows strptime exchange_rates
      (extract_cereal_prices_by_date prices_data [''maiz'', ''trigo'', ''soja''])
      (sort (map fst (extract_cereal_prices_by_date prices_data [''maiz'', ''trigo'', ''soja''])))
      [] = Inr rows"
    by (simp add: build_prices_csv_def Let_def)
  from write_rows_result [OF this assms(2)] show ?thesis
    by (auto dest: dict_get_nonzero)
qed

text \<open>
  built_rows_are_complete. Every row that \<open>build_prices_csv\<close> writes has a date that is not before
  \<open>START_DATE\<close>, carries the exchange rate that \<open>find_exchange_rate\<close> resolved for its
  date, and comes from an entry of \<open>pizarra\<close> for that date in which maize, wheat and soy
  are all present, each with the price extracted for it, which is greater than zero. So
  a date before the start, without a rate, or with a missing or zero price gives no row.
\<close>

theorem built_rows_are_complete:
  assumes "build_prices_csv strptime prices_data exchange_rates = Inr rows" "r \<in> set rows"
  shows "\<not> fecha r < START_DATE \<and>
      find_exchange_rate strptime (fecha r) exchange_rates = Inr (Some (tipo_cambio_usd r)) \<and>
      (\<exists>date_data. (fecha r, date_data) \<in> set (dict_get prices_data ''pizarra'' []) \<and>
         map_of date_data ''maiz'' \<noteq> None \<and> map_of date_data ''trigo'' \<noteq> None \<and>
         map_of date_data ''soja'' \<noteq> None \<and>
         map_of (cereal_loop date_data [''maiz'', ''trigo'', ''soja''] []) ''maiz'' = Some (maiz_ars r) \<and>
         map_of (cereal_loop date_data [''maiz'', ''trigo'', ''soja''] []) ''trigo'' = Some (trigo_ars r) \<and>
         map_of (cereal_loop date_data [''maiz'', ''trigo'', ''soja''] []) ''soja'' = Some (soja_ars r)) \<and>
      fgt (maiz_ars r) (Finite 0) \<and> fgt (trigo_ars r) (Finite 0) \<and> fgt (soja_ars r) (Finite 0)"
proof -
  let ?cereals = "[''maiz'', ''trigo'', ''soja'']"
  from build_prices_csv_row [OF assms] obtain date_prices where
    date: "\<not> fecha r < START_DATE"
      "find_exchange_rate strptime (fecha r) exchange_rates = Inr (Some (tipo_cambio_usd r))"
    and dp: "map_of (extract_cereal_prices_by_date prices_data ?cereals) (fecha r) = Some date_prices"
    and prices: "map_of date_prices ''maiz'' = Some (maiz_ars r)"
      "map_of date_prices ''trigo'' = Some (trigo_ars r)"
      "map_of date_prices ''soja'' = Some (soja_ars r)"
    by blast
  from extract_entry [OF dp] obtain date_data where
    dd: "(fecha r, date_data) \<in> set (dict_get prices_data ''pizarra'' [])"
      "date_prices = cereal_loop date_data ?cereals []"
    by blast
  have "map_of date_data c \<noteq> None \<and> fgt v (Finite 0)" if "map_of date_prices c = Some v" for c v
    using cereal_loop_entry [OF that [unfolded dd(2)]] by simp
  with prices have "map_of date_data ''maiz'' \<noteq> None" "map_of date_data ''trigo'' \<noteq> None"
    "map_of date_data ''soja'' \<noteq> None"
    "fgt (maiz_ars r) (Finite 0)" "fgt (trigo_ars r) (Finite 0)" "fgt (soja_ars r) (Finite 0)"
    by blast+
  with date dd(1) prices [unfolded dd(2)] show ?thesis by blast
qed

lemma two_decimals_py_round: "isfinite q \<Longrightarrow> two_decimals (py_round q 2)"
  by (cases q) simp_all

text \<open>
  C3, amended. In every row that \<open>build_prices_csv\<close> writes, each converted field is
  \<^verbatim>\<open>round(local_price / rate, 2)\<close>, a whole number of hundredths whenever the quotient
  is finite; the exchange rate is the one resolved for the date and the three local
  prices are the ones extracted for it, neither of them rounded.
\<close>

theorem usd_fields_are_rounded:
  assumes "build_prices_csv strptime prices_data exchange_rates = Inr rows" "r \<in> set rows"
  shows "(\<exists>qm qt qs.
         truediv (maiz_ars r) (tipo_cambio_usd r) = Inr qm \<and> maiz_usd r = py_round qm 2 \<and>
         truediv (trigo_ars r) (tipo_cambio_usd r) = Inr qt \<and> trigo_usd r = py_round qt 2 \<and>
         truediv (soja_ars r) (tipo_cambio_usd r) = Inr qs \<and> soja_usd r = py_round qs 2 \<and>
         (isfinite qm \<longrightarrow> two_decimals (maiz_usd r)) \<and>
         (isfinite qt \<longrightarrow> two_decimals (trigo_usd r)) \<and>
         (isfinite qs \<longrightarrow> two_decimals (soja_usd r))) \<and>
      find_exchange_rate strptime (fecha r) exchange_rates = Inr (Some (tipo_cambio_usd r)) \<and>
      (\<exists>date_prices.
         map_of (extract_cereal_prices_by_date prices_data [''maiz'', ''trigo'', ''soja''])
           (fecha r) = Some date_prices \<and>
         map_of date_prices ''maiz'' = Some (maiz_ars r) \<and>
         map_of date_prices ''trigo'' = Some (trigo_ars r) \<and>
         map_of date_prices ''soja'' = Some (soja_ars r))"
proof -
  from build_prices_csv_row [OF assms] obtain qm qt qs where
    q: "truediv (maiz_ars r) (tipo_cambio_usd r) = Inr qm" "maiz_usd r = py_round qm 2"
       "truediv (trigo_ars r) (tipo_cambio_usd r) = Inr qt" "trigo_usd r = py_round qt 2"
       "truediv (soja_ars r) (tipo_cambio_usd r) = Inr qs" "soja_usd r = py_round qs 2"
    by blast
  then have "isfinite qm \<longrightarrow> two_decimals (maiz_usd r)"
    "isfinite qt \<longrightarrow> two_decimals (trigo_usd r)" "isfinite qs \<longrightarrow> two_decimals (soja_usd r)"
    by (simp_all add: two_decimals_py_round)
  with q build_prices_csv_row [OF assms] show ?thesis by blast
qed


lemma example_extract:
  "extract_cereal_prices_by_date example_prices [''maiz'', ''trigo'', ''soja''] =
    [(''2020-01-06'', [(''maiz'', Finite 9000), (''trigo'', Finite 12000),
                        (''soja'', Finite (30001 / 2))]),
     (''2020-01-03'', [(''maiz'', Finite (100123 / 1000)), (''trigo'', Finite 200),
                        (''soja'', Finite 300)]),
     (''2020-01-04'', [(''maiz'', Finite 100), (''trigo'', Finite 200)]),
     (''2018-06-29'', [(''maiz'', Finite 100), (''trigo'', Finite 200), (''soja'', Finite 300)])]"
  by (simp add: extract_cereal_prices_by_date_def example_prices_def quote_def dict_get_def fgt_def)

lemma example_rate_6:
  "find_exchange_rate iso_strptime ''2020-01-06'' example_rates = Inr (Some (Finite (497 / 8)))"
  by (simp add: example_rates_def find_exchange_rate_def iso_strptime_def iso_day_def
        is_digit_def getitem_def)

lemma example_build:
  "build_prices_csv iso_strptime example_prices example_rates = Inr [example_row_3, example_row_6]"
  by (simp add: build_prices_csv_def example_extract example_rates_def START_DATE_def
       find_exchange_rate_def iso_strptime_def iso_day_def is_digit_def getitem_def dict_get_def
       truediv_def round_half_even_def Let_def example_row_3_def example_row_6_def)

text \<open>
  C3 fails on the code. Only the three converted fields go through \<^verbatim>\<open>round(x, 2)\<close>:
  the maize price 100.123 and the rate 62.125 are written as they were loaded.
\<close>

theorem every_field_rounded_counterexample:
  "build_prices_csv iso_strptime example_prices example_rates = Inr [example_row_3, example_row_6]
   \<and> maiz_ars example_row_3 = Finite (100123 / 1000)
   \<and> \<not> two_decimals (maiz_ars example_row_3)
   \<and> tipo_cambio_usd example_row_3 = Finite (497 / 8)
   \<and> \<not> two_decimals (tipo_cambio_usd example_row_3)"
proof -
  have "maiz_ars example_row_3 = Finite (100123 / 1000)"
    "\<not> two_decimals (maiz_ars example_row_3)"
    "tipo_cambio_usd example_row_3 = Finite (497 / 8)"
    "\<not> two_decimals (tipo_cambio_usd example_row_3)"
    by (simp_all add: example_row_3_def)
  with example_build show ?thesis by blast
qed

text \<open>
  In the example, 100.123 / 62.125 is rounded to 1.61.
\<close>

theorem usd_fields_are_rounded_witness:
  "build_prices_csv iso_strptime example_prices example_rates = Inr [example_row_3, example_row_6]
   \<and> example_row_3 \<in> set [example_row_3, example_row_6]
   \<and> truediv (maiz_ars example_row_3) (tipo_cambio_usd example_row_3) = Inr (Finite (100123 / 62125))
   \<and> maiz_usd example_row_3 = py_round (Finite (100123 / 62125)) 2
   \<and> maiz_usd example_row_3 = Finite (161 / 100)
   \<and> two_decimals (maiz_usd example_row_3)
   \<and> find_exchange_rate iso_strptime (fecha example_row_3) example_rates
        = Inr (Some (tipo_cambio_usd example_row_3))"
proof -
  have mem: "example_row_3 \<in> set [example_row_3, example_row_6]" by simp
  have q: "truediv (maiz_ars example_row_3) (tipo_cambio_usd example_row_3) = Inr (Finite (100123 / 62125))"
    by (simp add: example_row_3_def truediv_def)
  have v: "maiz_usd example_row_3 = Finite (161 / 100)"
    by (simp add: example_row_3_def)
  from usd_fields_are_rounded [OF example_build mem] obtain qm where
    "truediv (maiz_ars example_row_3) (tipo_cambio_usd example_row_3) = Inr qm"
    "maiz_usd example_row_3 = py_round qm 2" "isfinite qm \<longrightarrow> two_decimals (maiz_usd example_row_3)"
    and rate: "find_exchange_rate iso_strptime (fecha example_row_3) example_rates
        = Inr (Some (tipo_cambio_usd example_row_3))"
    by blast
  with q have "maiz_usd example_row_3 = py_round (Finite (100123 / 62125)) 2"
    "two_decimals (maiz_usd example_row_3)"
    by auto
  with example_build mem q v rate show ?thesis by blast
qed

text \<open>
  In the example, the row of 6 January 2020 satisfies built_rows_are_complete; 4 January (no soy price) and
  29 June 2018 (before the start date) give no row.
\<close>

theorem built_rows_are_complete_witness:
  "build_prices_csv iso_strptime example_prices example_rates = Inr [example_row_3, example_row_6]
   \<and> example_row_6 \<in> set [example_row_3, example_row_6]
   \<and> \<not> fecha example_row_6 < START_DATE
   \<and> find_exchange_rate iso_strptime (fecha example_row_6) example_rates
        = Inr (Some (tipo_cambio_usd example_row_6))
   \<and> fgt (maiz_ars example_row_6) (Finite 0)
   \<and> fgt (trigo_ars example_row_6) (Finite 0)
   \<and> fgt (soja_ars example_row_6) (Finite 0)
   \<and> ''2020-01-04'' \<notin> fecha ` set [example_row_3, example_row_6]
   \<and> ''2018-06-29'' \<notin> fecha ` set [example_row_3, example_row_6]"
proof -
  have mem: "example_row_6 \<in> set [example_row_3, example_row_6]" by simp
  have absent: "''2020-01-04'' \<notin> fecha ` set [example_row_3, example_row_6]"
    "''2018-06-29'' \<notin> fecha ` set [example_row_3, example_row_6]"
    by (simp_all add: example_row_3_def example_row_6_def)
  from built_rows_are_complete [OF example_build mem] example_build mem absent show ?thesis by blast
qed

text \<open>
  With rates for 2 and 3 January 2020, the rate found for 6 January is that of
  3 January.
\<close>

theorem find_exchange_rate_nearest_previous_witness:
  "iso_strptime ''2020-01-06'' = Inr (iso_day ''2020-01-06'')
   \<and> iso_strptime ''2020-01-02'' = Inr (iso_day ''2020-01-02'')
   \<and> iso_strptime ''2020-01-03'' = Inr (iso_day ''2020-01-03'')
   \<and> fst ` set example_rates = {''2020-01-02'', ''2020-01-03''}
   \<and> iso_day ''2020-01-02'' < iso_day ''2020-01-03''
   \<and> iso_day ''2020-01-03'' < iso_day ''2020-01-06''
   \<and> map_of example_rates ''2020-01-03'' = Some (Finite (497 / 8))
   \<and> find_exchange_rate iso_strptime ''2020-01-06'' example_rates = Inr (Some (Finite (497 / 8)))
   \<and> (\<exists>d'\<in>fst ` set example_rates. iso_day d' < iso_day ''2020-01-06'' \<and>
        (\<forall>k\<in>fst ` set example_rates. iso_day k < iso_day ''2020-01-06'' \<longrightarrow> iso_day k \<le> iso_day d') \<and>
        map_of example_rates d' \<noteq> None \<and>
        find_exchange_rate iso_strptime ''2020-01-06'' example_rates = Inr (map_of example_rates d'))"
proof -
  have days: "iso_day ''2020-01-06'' = 20200106" "iso_day ''2020-01-02'' = 20200102"
    "iso_day ''2020-01-03'' = 20200103"
    by (simp_all add: iso_day_def)
  have parsed: "iso_strptime ''2020-01-06'' = Inr (iso_day ''2020-01-06'')"
    "iso_strptime ''2020-01-02'' = Inr (iso_day ''2020-01-02'')"
    "iso_strptime ''2020-01-03'' = Inr (iso_day ''2020-01-03'')"
    by (simp_all add: iso_strptime_def is_digit_def)
  have keys: "fst ` set example_rates = {''2020-01-02'', ''2020-01-03''}"
    by (simp add: example_rates_def)
  have parse: "\<forall>k\<in>insert ''2020-01-06'' (fst ` set example_rates). iso_strptime k = Inr (iso_day k)"
    unfolding keys using parsed by simp
  have mono: "\<forall>a\<in>insert ''2020-01-06'' (fst ` set example_rates).
      \<forall>b\<in>insert ''2020-01-06'' (fst ` set example_rates). (iso_day a \<le> iso_day b) = (a \<le> b)"
    unfolding keys by (simp add: days)
  have new: "''2020-01-06'' \<notin> fst ` set example_rates"
    unfolding keys by simp
  have earlier: "\<exists>k\<in>fst ` set example_rates. iso_day k < iso_day ''2020-01-06''"
    unfolding keys by (simp add: days)
  have order: "iso_day ''2020-01-02'' < iso_day ''2020-01-03''"
    "iso_day ''2020-01-03'' < iso_day ''2020-01-06''"
    by (simp_all add: days)
  have rate: "map_of example_rates ''2020-01-03'' = Some (Finite (497 / 8))"
    by (simp add: example_rates_def)
  from find_exchange_rate_nearest_previous [OF parse mono] new earlier
  have "\<exists>d'\<in>fst ` set example_rates. iso_day d' < iso_day ''2020-01-06'' \<and>
        (\<forall>k\<in>fst ` set example_rates. iso_day k < iso_day ''2020-01-06'' \<longrightarrow> iso_day k \<le> iso_day d') \<and>
        map_of example_rates d' \<noteq> None \<and>
        find_exchange_rate iso_strptime ''2020-01-06'' example_rates = Inr (map_of example_rates d')"
    by blast
  with parsed keys order rate example_rate_6 show ?thesis by blast
qed

end
